theory Spec2Isabelle
  imports Complex_Main "HOL-Library.Multiset" "HOL-Library.Sublist"
begin

section \<open>Python values used by \<open>one_day.py\<close>\<close>

text \<open>
  Text is modelled as \<open>string\<close>: a list of 8-bit code points (Latin-1). In that range the
  decimal digits matched by the regular expression class \<open>\d\<close> and accepted by \<open>int()\<close>
  are exactly \<open>0\<close> .. \<open>9\<close>. Exceptions that leave a function are values \<open>Inl e\<close> of a sum.
\<close>

datatype exn =
    HTTPError
  | DecodeError
  | IndexError
  | ValueError
  | AttributeError
  | OverflowError
  | SystemExit string

definition is_digit :: "char \<Rightarrow> bool" where
  "is_digit c = (let n = (of_char c :: nat) in 48 \<le> n \<and> n \<le> 57)"

definition digit_val :: "char \<Rightarrow> int" where
  "digit_val c = int (of_char c) - 48"

text \<open>\<open>str.isspace\<close> on one code point below 256.\<close>

definition py_isspace :: "char \<Rightarrow> bool" where
  "py_isspace c =
     (let n = (of_char c :: nat)
      in (9 \<le> n \<and> n \<le> 13) \<or> (28 \<le> n \<and> n \<le> 32) \<or> n = 133 \<or> n = 160)"

text \<open>\<open>s.strip()\<close>.\<close>

definition py_strip :: "string \<Rightarrow> string" where
  "py_strip s = rev (dropWhile py_isspace (rev (dropWhile py_isspace s)))"

text \<open>
  \<open>int(s)\<close> for a string, base 10: surrounding whitespace is dropped, one sign is allowed,
  then at least one digit, with single underscores allowed between digits. \<open>None\<close> is
  Python's \<open>ValueError\<close>. The whitespace that \<open>int()\<close> drops is narrower than that of
  \<open>str.strip()\<close>: the separators \<open>U+001C\<close> .. \<open>U+001F\<close> are not dropped and make the
  conversion fail.
\<close>

definition int_space :: "char \<Rightarrow> bool" where
  "int_space c =
     (let n = (of_char c :: nat)
      in (9 \<le> n \<and> n \<le> 13) \<or> n = 32 \<or> n = 133 \<or> n = 160)"

definition int_strip :: "string \<Rightarrow> string" where
  "int_strip s = rev (dropWhile int_space (rev (dropWhile int_space s)))"

fun py_digits :: "int \<Rightarrow> string \<Rightarrow> int option" where
  "py_digits acc [] = Some acc"
| "py_digits acc [c] = (if is_digit c then Some (acc * 10 + digit_val c) else None)"
| "py_digits acc (c # d # cs) =
     (if is_digit c then py_digits (acc * 10 + digit_val c) (d # cs)
      else if c = CHR ''_'' \<and> is_digit d then py_digits acc (d # cs)
      else None)"

definition py_unsigned :: "string \<Rightarrow> int option" where
  "py_unsigned s =
     (case s of
        [] \<Rightarrow> None
      | c # cs \<Rightarrow> if is_digit c then py_digits (digit_val c) cs else None)"

definition py_int :: "string \<Rightarrow> int option" where
  "py_int s =
     (case int_strip s of
        [] \<Rightarrow> None
      | c # cs \<Rightarrow>
          if c = CHR ''-'' then map_option uminus (py_unsigned cs)
          else if c = CHR ''+'' then py_unsigned cs
          else py_unsigned (c # cs))"

text \<open>\<open>s.split(sep)\<close> for a one-character separator: never an empty list.\<close>

fun py_split :: "char \<Rightarrow> string \<Rightarrow> string list" where
  "py_split sep [] = [[]]"
| "py_split sep (c # cs) =
     (if c = sep then [] # py_split sep cs
      else (case py_split sep cs of
              [] \<Rightarrow> [[c]]
            | w # ws \<Rightarrow> (c # w) # ws))"

section \<open>Time codes in file names\<close>

text \<open>
  The two compiled patterns of \<open>circular_sort\<close>: \<open>_(\d{6})_\<close> and \<open>_(\d{6})i\<close>. They
  differ in the character that must follow the six digits.
\<close>

datatype time_re = Underscore_re | Intensity_re

fun re_tail :: "time_re \<Rightarrow> char" where
  "re_tail Underscore_re = CHR ''_''"
| "re_tail Intensity_re = CHR ''i''"

text \<open>
  \<open>time_re.search(f)\<close> followed by \<open>.group(1)\<close>: the six digits of the leftmost match,
  \<open>None\<close> when there is no match.
\<close>

fun re_search :: "time_re \<Rightarrow> string \<Rightarrow> string option" where
  "re_search p [] = None"
| "re_search p (c # cs) =
     (if c = CHR ''_'' \<and> 7 \<le> length cs \<and> list_all is_digit (take 6 cs) \<and> cs ! 6 = re_tail p
      then Some (take 6 cs)
      else re_search p cs)"

text \<open>\<open>hhmmss_to_seconds\<close>, the local function of \<open>circular_sort\<close>.\<close>

definition hhmmss_to_seconds :: "string \<Rightarrow> exn + int" where
  "hhmmss_to_seconds hhmmss =
     (case py_int (take 2 hhmmss) of
        None \<Rightarrow> Inl ValueError
      | Some h \<Rightarrow>
          (case py_int (take 2 (drop 2 hhmmss)) of
             None \<Rightarrow> Inl ValueError
           | Some m \<Rightarrow>
               (case py_int (take 2 (drop 4 hhmmss)) of
                  None \<Rightarrow> Inl ValueError
                | Some s \<Rightarrow> Inr (h * 3600 + m * 60 + s))))"

section \<open>\<open>circular_sort\<close>\<close>

text \<open>The loop that fills \<open>time_file_pairs\<close>; files without a match are left out.\<close>

fun time_file_pairs :: "time_re \<Rightarrow> string list \<Rightarrow> exn + (int \<times> string) list" where
  "time_file_pairs p [] = Inr []"
| "time_file_pairs p (f # fs) =
     (case re_search p f of
        None \<Rightarrow> time_file_pairs p fs
      | Some g \<Rightarrow>
          (case hhmmss_to_seconds g of
             Inl e \<Rightarrow> Inl e
           | Inr t \<Rightarrow>
               (case time_file_pairs p fs of
                  Inl e \<Rightarrow> Inl e
                | Inr ps \<Rightarrow> Inr ((t, f) # ps))))"

text \<open>\<open>next((i for i, t in enumerate(times) if t >= offset_sec), 0)\<close>.\<close>

fun first_at_least :: "int list \<Rightarrow> int \<Rightarrow> nat option" where
  "first_at_least [] off = None"
| "first_at_least (t # ts) off =
     (if off \<le> t then Some 0 else map_option Suc (first_at_least ts off))"

definition rotation_index :: "int list \<Rightarrow> int \<Rightarrow> nat" where
  "rotation_index ts off = (case first_at_least ts off of None \<Rightarrow> 0 | Some i \<Rightarrow> i)"

text \<open>
  The pattern is chosen by looking at \<open>files[0]\<close> only; \<open>None\<close> is the branch that prints
  the error and calls \<open>exit(0)\<close>.
\<close>

definition choose_time_re :: "string \<Rightarrow> time_re option" where
  "choose_time_re f0 =
     (if re_search Underscore_re f0 \<noteq> None then Some Underscore_re
      else if re_search Intensity_re f0 \<noteq> None then Some Intensity_re
      else None)"

definition circular_sort :: "string list \<Rightarrow> string \<Rightarrow> string \<Rightarrow> exn + string list" where
  "circular_sort files offset url =
     (case files of
        [] \<Rightarrow> Inl IndexError
      | f0 # _ \<Rightarrow>
          (case choose_time_re f0 of
             None \<Rightarrow> Inl (SystemExit (''ERROR: No matching time formats found at: '' @ url))
           | Some p \<Rightarrow>
               (case time_file_pairs p files of
                  Inl e \<Rightarrow> Inl e
                | Inr pairs \<Rightarrow>
                    (let sorted_pairs = sort_key fst pairs
                     in case hhmmss_to_seconds offset of
                          Inl e \<Rightarrow> Inl e
                        | Inr offset_sec \<Rightarrow>
                            (let times_list = map fst sorted_pairs;
                                 idx = rotation_index times_list offset_sec
                             in Inr (map snd (drop idx sorted_pairs)
                                       @ map snd (take idx sorted_pairs)))))))"

section \<open>Decoded arrays\<close>

text \<open>
  A two-dimensional \<open>numpy\<close> array: \<open>arr.shape\<close> is \<open>(shape0 arr, shape1 arr)\<close>, axis 0
  is the frequency bin and axis 1 the time sample; \<open>rows arr ! i ! j\<close> is \<open>arr[i, j]\<close>.
\<close>

record 'a ndarray =
  shape0 :: nat
  shape1 :: nat
  rows :: "'a list list"

text \<open>
  \<open>np.concatenate(arrays, axis=1)\<close>: an empty list and arrays that disagree on axis 0
  raise \<open>ValueError\<close>.
\<close>

definition np_concatenate_axis1 :: "'a ndarray list \<Rightarrow> exn + 'a ndarray" where
  "np_concatenate_axis1 arrs =
     (case arrs of
        [] \<Rightarrow> Inl ValueError
      | a # as \<Rightarrow>
          if list_all (\<lambda>b. shape0 b = shape0 a) as
          then Inr \<lparr>shape0 = shape0 a,
                    shape1 = sum_list (map shape1 arrs),
                    rows = map (\<lambda>i. concat (map (\<lambda>b. rows b ! i) arrs)) [0..<shape0 a]\<rparr>
          else Inl ValueError)"

text \<open>\<open>np.flipud\<close>: axis 0 reversed.\<close>

definition np_flipud :: "'a ndarray \<Rightarrow> 'a ndarray" where
  "np_flipud a = a\<lparr>rows := rev (rows a)\<rparr>"

section \<open>\<open>find_bursts\<close>\<close>

record burst_index =
  burst :: string
  start_idx :: int
  end_idx :: int

text \<open>\<open>parse_time_str\<close>, the local function of \<open>find_bursts\<close>.\<close>

definition parse_time_str :: "string \<Rightarrow> exn + int" where
  "parse_time_str tstr =
     (case those (map py_int (py_split CHR '':'' tstr)) of
        None \<Rightarrow> Inl ValueError
      | Some parts \<Rightarrow>
          (case parts of
             [h, m] \<Rightarrow> Inr (h * 3600 + m * 60 + 0)
           | [h, m, s] \<Rightarrow> Inr (h * 3600 + m * 60 + s)
           | _ \<Rightarrow> Inl ValueError))"

text \<open>
  The first three statements of the body of \<open>for burst in burst_list\<close>: the label is
  split at \<open>-\<close> into exactly two tokens, and both are parsed.
\<close>

definition burst_endpoints :: "string \<Rightarrow> exn + (int \<times> int)" where
  "burst_endpoints b =
     (case py_split CHR ''-'' b of
        [bstart_str, bend_str] \<Rightarrow>
          (case parse_time_str bstart_str of
             Inl e \<Rightarrow> Inl e
           | Inr bstart_sec \<Rightarrow>
               (case parse_time_str bend_str of
                  Inl e \<Rightarrow> Inl e
                | Inr bend_sec \<Rightarrow> Inr (bstart_sec, bend_sec)))
      | _ \<Rightarrow> Inl ValueError)"

text \<open>
  The float \<open>file_end_sec = file_start_sec + nx / 4\<close>. A binary64 value is kept as the
  rational number it stands for, or as an infinity. \<open>round53 n\<close> is the natural number
  with at most 53 significant bits that is nearest to \<open>n\<close>, ties going to the even
  significand; scaling by a quarter is exact, so the correctly rounded quotient \<open>n / 4\<close>
  is \<open>round53 n / 4\<close>.
\<close>

fun bit_length :: "nat \<Rightarrow> nat" where
  "bit_length n = (if n = 0 then 0 else Suc (bit_length (n div 2)))"

declare bit_length.simps [simp del]

definition round53 :: "nat \<Rightarrow> nat" where
  "round53 n =
     (if n < 2 ^ 53 then n
      else (let u = 2 ^ (bit_length n - 53); q = n div u; r = n mod u
            in if 2 * r < u \<or> (2 * r = u \<and> even q) then q * u else (q + 1) * u))"

definition round53_int :: "int \<Rightarrow> int" where
  "round53_int z = (if z < 0 then - int (round53 (nat (- z))) else int (round53 (nat z)))"

datatype py_float = Float_val rat | Float_inf | Float_neg_inf

text \<open>
  \<open>nx / 4\<close> on two integers: the quotient rounded once; \<open>OverflowError\<close> when it is
  beyond the largest float.
\<close>

definition int_truediv_4 :: "nat \<Rightarrow> exn + rat" where
  "int_truediv_4 n =
     (let r = round53 n
      in if 2 ^ 1026 \<le> r then Inl OverflowError else Inr (of_nat r / 4))"

text \<open>The conversion of the integer operand of \<open>+\<close> to a float.\<close>

definition float_of_int :: "int \<Rightarrow> exn + rat" where
  "float_of_int z =
     (let r = round53_int z
      in if 2 ^ 1024 \<le> \<bar>r\<bar> then Inl OverflowError else Inr (of_int r))"

text \<open>
  The sum of two floats that are multiples of a quarter (a converted integer and a
  quotient by 4 are): the exact sum rounded once, an infinity beyond the largest float.
\<close>

definition float_add_quarters :: "rat \<Rightarrow> rat \<Rightarrow> py_float" where
  "float_add_quarters a b =
     (let r = round53_int \<lfloor>(a + b) * 4\<rfloor>
      in if 2 ^ 1026 \<le> r then Float_inf
         else if r \<le> - (2 ^ 1026) then Float_neg_inf
         else Float_val (of_int r / 4))"

text \<open>\<open>i < f\<close> for an integer and a float: Python compares the two exactly.\<close>

definition int_less_float :: "int \<Rightarrow> py_float \<Rightarrow> bool" where
  "int_less_float i f =
     (case f of
        Float_val r \<Rightarrow> of_int i < r
      | Float_inf \<Rightarrow> True
      | Float_neg_inf \<Rightarrow> False)"

text \<open>
  The body of \<open>for burst in burst_list\<close>: the entries it appends to \<open>results\<close> (none or
  one).
\<close>

definition burst_entry :: "nat \<Rightarrow> int \<Rightarrow> py_float \<Rightarrow> int \<Rightarrow> string \<Rightarrow> exn + burst_index list" where
  "burst_entry nx file_start_sec file_end_sec current_idx b =
     (case burst_endpoints b of
        Inl e \<Rightarrow> Inl e
      | Inr (bstart_sec, bend_sec) \<Rightarrow>
          if int_less_float bstart_sec file_end_sec \<and> file_start_sec \<le> bend_sec
          then (let start_idx0 = max 0 ((bstart_sec - file_start_sec) * 4);
                    end_idx0 = min (int nx - 1) ((bend_sec - file_start_sec) * 4)
                in Inr [\<lparr>burst = b,
                         start_idx = start_idx0 + current_idx - 4 * 60,
                         end_idx = end_idx0 + current_idx + 4 * 60\<rparr>])
          else Inr [])"

fun find_bursts_loop ::
  "nat \<Rightarrow> int \<Rightarrow> py_float \<Rightarrow> int \<Rightarrow> string list \<Rightarrow> burst_index list \<Rightarrow> exn + burst_index list"
where
  "find_bursts_loop nx file_start_sec file_end_sec current_idx [] results = Inr results"
| "find_bursts_loop nx file_start_sec file_end_sec current_idx (b # bs) results =
     (case burst_entry nx file_start_sec file_end_sec current_idx b of
        Inl e \<Rightarrow> Inl e
      | Inr new \<Rightarrow>
          find_bursts_loop nx file_start_sec file_end_sec current_idx bs (results @ new))"

text \<open>
  \<open>find_bursts\<close> returns the pair \<open>(results, current_idx + nx)\<close>. The start time of the
  file is searched with the underscore pattern only; \<open>.group(1)\<close> on no match raises
  \<open>AttributeError\<close>. In \<open>file_start_sec + nx / 4\<close> the quotient is taken first, then the
  integer is converted and added.
\<close>

definition find_bursts ::
  "'a ndarray \<Rightarrow> string list \<Rightarrow> string \<Rightarrow> burst_index list \<Rightarrow> int
     \<Rightarrow> exn + (burst_index list \<times> int)"
where
  "find_bursts arr burst_list filename results current_idx =
     (let nx = shape1 arr
      in case re_search Underscore_re filename of
           None \<Rightarrow> Inl AttributeError
         | Some hhmmss \<Rightarrow>
             (case hhmmss_to_seconds hhmmss of
                Inl e \<Rightarrow> Inl e
              | Inr file_start_sec \<Rightarrow>
                  (case int_truediv_4 nx of
                     Inl e \<Rightarrow> Inl e
                   | Inr quarter \<Rightarrow>
                       (case float_of_int file_start_sec of
                          Inl e \<Rightarrow> Inl e
                        | Inr start_float \<Rightarrow>
                            (let file_end_sec = float_add_quarters start_float quarter
                             in case find_bursts_loop nx file_start_sec file_end_sec
                                       current_idx burst_list results of
                                  Inl e \<Rightarrow> Inl e
                                | Inr results' \<Rightarrow>
                                    Inr (results', current_idx + int nx))))))"

section \<open>\<open>one_day\<close>\<close>

text \<open>
  \<open>fetch url\<close> is what the network and the decoders give for \<open>url\<close>: the HTTP status
  check, the gzip and FITS readers raise (\<open>Inl\<close>), or the data of the first HDU comes
  back. \<open>download_fits_from_gz\<close> has no path that returns \<open>None\<close>.
\<close>

definition download_fits_from_gz ::
  "(string \<Rightarrow> exn + 'a ndarray) \<Rightarrow> string \<Rightarrow> exn + 'a ndarray option"
where
  "download_fits_from_gz fetch url =
     (case fetch url of
        Inl e \<Rightarrow> Inl e
      | Inr data \<Rightarrow> Inr (Some data))"

record 'a day_state =
  arrays :: "'a ndarray list"
  burst_indices :: "burst_index list"
  current_idx :: int

text \<open>One iteration of \<open>for url in sorted_files\<close>.\<close>

definition one_day_step ::
  "(string \<Rightarrow> exn + 'a ndarray) \<Rightarrow> string list option \<Rightarrow> string \<Rightarrow> 'a day_state
     \<Rightarrow> exn + 'a day_state"
where
  "one_day_step fetch burst_list url st =
     (case download_fits_from_gz fetch url of
        Inl e \<Rightarrow> Inl e
      | Inr None \<Rightarrow> Inr st
      | Inr (Some arr) \<Rightarrow>
          (case burst_list of
             None \<Rightarrow> Inr (st\<lparr>arrays := arrays st @ [arr]\<rparr>)
           | Some bl \<Rightarrow>
               (case find_bursts arr bl url (burst_indices st) (current_idx st) of
                  Inl e \<Rightarrow> Inl e
                | Inr (res, cur) \<Rightarrow>
                    Inr \<lparr>arrays = arrays st @ [arr], burst_indices = res, current_idx = cur\<rparr>)))"

fun one_day_loop ::
  "(string \<Rightarrow> exn + 'a ndarray) \<Rightarrow> string list option \<Rightarrow> string list \<Rightarrow> 'a day_state
     \<Rightarrow> exn + 'a day_state"
where
  "one_day_loop fetch burst_list [] st = Inr st"
| "one_day_loop fetch burst_list (url # urls) st =
     (case one_day_step fetch burst_list url st of
        Inl e \<Rightarrow> Inl e
      | Inr st' \<Rightarrow> one_day_loop fetch burst_list urls st')"

definition day_init :: "'a day_state" where
  "day_init = \<lparr>arrays = [], burst_indices = [], current_idx = 0\<rparr>"

text \<open>The part of \<open>one_day\<close> after \<open>circular_sort\<close>: the loop, then the concatenation.\<close>

definition assemble ::
  "(string \<Rightarrow> exn + 'a ndarray) \<Rightarrow> string list option \<Rightarrow> string list
     \<Rightarrow> exn + ('a ndarray \<times> burst_index list)"
where
  "assemble fetch burst_list sorted_files =
     (case one_day_loop fetch burst_list sorted_files day_init of
        Inl e \<Rightarrow> Inl e
      | Inr st \<Rightarrow>
          if arrays st = [] then Inl ValueError
          else (case np_concatenate_axis1 (arrays st) of
                  Inl e \<Rightarrow> Inl e
                | Inr big_array \<Rightarrow> Inr (np_flipud big_array, burst_indices st)))"

text \<open>
  \<open>one_day\<close>. \<open>listing\<close> is the outcome of the directory request and of the link
  extraction (the list \<open>files\<close> of absolute URLs), \<open>url\<close> the directory URL built from the
  date.
\<close>

definition one_day ::
  "(string \<Rightarrow> exn + 'a ndarray) \<Rightarrow> exn + string list \<Rightarrow> string \<Rightarrow> string \<Rightarrow> string
     \<Rightarrow> string list option \<Rightarrow> exn + ('a ndarray \<times> burst_index list)"
where
  "one_day fetch listing url station offset burst_list =
     (case listing of
        Inl e \<Rightarrow> Inl e
      | Inr files \<Rightarrow>
          (let station_files = filter (sublist station) files
           in if length station_files = 0
              then Inl (SystemExit (''ERROR: No match found for '' @ station
                                      @ '' found at '' @ url))
              else (case circular_sort station_files offset url of
                      Inl e \<Rightarrow> Inl e
                    | Inr sorted_files \<Rightarrow> assemble fetch burst_list sorted_files)))"

section \<open>\<open>extract_bursts\<close>\<close>

text \<open>\<open>text.splitlines()\<close>, with the line boundaries Python knows below code point 256.\<close>

definition is_linebreak :: "char \<Rightarrow> bool" where
  "is_linebreak c =
     (let n = (of_char c :: nat)
      in (10 \<le> n \<and> n \<le> 13) \<or> (28 \<le> n \<and> n \<le> 30) \<or> n = 133)"

fun py_splitlines :: "string \<Rightarrow> string list" where
  "py_splitlines [] = []"
| "py_splitlines [c] = (if is_linebreak c then [[]] else [[c]])"
| "py_splitlines (c # d # cs) =
     (if c = CHR 0x0D \<and> d = CHR 0x0A then [] # py_splitlines cs
      else if is_linebreak c then [] # py_splitlines (d # cs)
      else (case py_splitlines (d # cs) of
              [] \<Rightarrow> [[c]]
            | w # ws \<Rightarrow> (c # w) # ws))"

text \<open>The format specifications \<open>04d\<close> and \<open>02d\<close> of the f-strings.\<close>

fun nat_digits :: "nat \<Rightarrow> string" where
  "nat_digits n =
     (if n < 10 then [char_of (48 + n)]
      else nat_digits (n div 10) @ [char_of (48 + n mod 10)])"

definition zero_pad :: "nat \<Rightarrow> string \<Rightarrow> string" where
  "zero_pad w s = replicate (w - length s) CHR ''0'' @ s"

definition fmt_d :: "nat \<Rightarrow> int \<Rightarrow> string" where
  "fmt_d w n =
     (if n < 0 then CHR ''-'' # zero_pad (w - 1) (nat_digits (nat (- n)))
      else zero_pad w (nat_digits (nat n)))"

text \<open>
  The body of \<open>for line in lines\<close>: what the row appends to \<open>bursts\<close>. The unpacking
  \<open>line_date, time_range, _, stations = parts\<close> takes exactly four fields.
\<close>

definition burst_of_row :: "string \<Rightarrow> string \<Rightarrow> string \<Rightarrow> exn + string list" where
  "burst_of_row date station line =
     (if py_strip line = [] \<or> prefix ''#'' line \<or> prefix ''-'' line then Inr []
      else (let parts = py_split CHR 0x09 line
            in if length parts < 4 then Inr []
               else (case parts of
                       [line_date, time_range, _, stations] \<Rightarrow>
                         if line_date = date
                         then (let station_list = map py_strip (py_split CHR '','' stations)
                               in if station \<in> set station_list then Inr [time_range]
                                  else Inr [])
                         else Inr []
                     | _ \<Rightarrow> Inl ValueError)))"

fun extract_bursts_loop :: "string \<Rightarrow> string \<Rightarrow> string list \<Rightarrow> string list \<Rightarrow> exn + string list"
where
  "extract_bursts_loop date station [] bursts = Inr bursts"
| "extract_bursts_loop date station (line # rest) bursts =
     (case burst_of_row date station line of
        Inl e \<Rightarrow> Inl e
      | Inr new \<Rightarrow> extract_bursts_loop date station rest (bursts @ new))"

text \<open>
  \<open>extract_bursts\<close>. \<open>resp\<close> is the outcome of the request for the monthly table: the
  status check raises, or the text of the table comes back. The date arrives as integers
  (\<open>int(year)\<close>, \<open>int(month)\<close>, \<open>int(day)\<close>).
\<close>

definition extract_bursts :: "exn + string \<Rightarrow> string \<Rightarrow> int \<Rightarrow> int \<Rightarrow> int \<Rightarrow> exn + string list" where
  "extract_bursts resp station year month day =
     (case resp of
        Inl e \<Rightarrow> Inl e
      | Inr txt \<Rightarrow>
          (let lines = py_splitlines txt;
               date = fmt_d 4 year @ fmt_d 2 month @ fmt_d 2 day
           in extract_bursts_loop date station lines []))"

section \<open>The alignment as the specification words it\<close>

text \<open>
  \<open>clamp(x, lo, hi)\<close>: \<open>lo\<close> below the range, \<open>hi\<close> above it, \<open>x\<close> inside.
\<close>

definition spec_clamp :: "int \<Rightarrow> int \<Rightarrow> int \<Rightarrow> int" where
  "spec_clamp x lo hi = (if x < lo then lo else if hi < x then hi else x)"

text \<open>
  What \<open>BurstAligner.align\<close> appends for one burst and one file: one entry when
  \<open>burstStart < fileEndSeconds\<close> and \<open>burstEnd >= fileStartSeconds\<close>, with the \<open>240\<close>
  samples of margin added after the clamp; nothing otherwise.
\<close>

definition spec_align_entry :: "nat \<Rightarrow> int \<Rightarrow> int \<Rightarrow> string \<Rightarrow> int \<Rightarrow> int \<Rightarrow> burst_index list" where
  "spec_align_entry fileSampleCount fileStartSeconds cursor label burstStart burstEnd =
     (if of_int burstStart < (of_int fileStartSeconds + of_nat fileSampleCount / 4 :: rat)
         \<and> fileStartSeconds \<le> burstEnd
      then [\<lparr>burst = label,
              start_idx = cursor
                 + spec_clamp ((burstStart - fileStartSeconds) * 4) 0 (int fileSampleCount - 1)
                 - 240,
              end_idx = cursor
                 + spec_clamp ((burstEnd - fileStartSeconds) * 4) 0 (int fileSampleCount - 1)
                 + 240\<rparr>]
      else [])"

definition spec_align :: "nat \<Rightarrow> int \<Rightarrow> int \<Rightarrow> string \<Rightarrow> burst_index list" where
  "spec_align fileSampleCount fileStartSeconds cursor label =
     (case burst_endpoints label of
        Inl e \<Rightarrow> []
      | Inr (burstStart, burstEnd) \<Rightarrow>
          spec_align_entry fileSampleCount fileStartSeconds cursor label burstStart burstEnd)"

section \<open>The rows of the label table as the specification words them\<close>

text \<open>A row that is blank, or starts with the comment or the separator character.\<close>

definition row_skipped :: "string \<Rightarrow> bool" where
  "row_skipped line = (py_strip line = [] \<or> prefix ''#'' line \<or> prefix ''-'' line)"

text \<open>
  A row that is kept: not skipped, at least four tab-separated fields, the date in the
  first field and the station in the comma-separated fourth field.
\<close>

definition row_selected :: "string \<Rightarrow> string \<Rightarrow> string \<Rightarrow> bool" where
  "row_selected date station line =
     (py_strip line \<noteq> [] \<and> \<not> prefix ''#'' line \<and> \<not> prefix ''-'' line
      \<and> (let parts = py_split CHR 0x09 line
         in 4 \<le> length parts \<and> parts ! 0 = date
            \<and> station \<in> set (map py_strip (py_split CHR '','' (parts ! 3)))))"

section \<open>Example days\<close>

text \<open>An array of one frequency bin and \<open>nx\<close> samples, all zero.\<close>

definition blank :: "nat \<Rightarrow> int ndarray" where
  "blank nx = \<lparr>shape0 = 1, shape1 = nx, rows = [replicate nx 0]\<rparr>"

text \<open>Three files of 900, 850 and 900 samples; every other request is refused.\<close>

definition fetch_three :: "string \<Rightarrow> exn + int ndarray" where
  "fetch_three u =
     (if u = ''S_20250101_000000_59.fit.gz'' then Inr (blank 900)
      else if u = ''S_20250101_001500_59.fit.gz'' then Inr (blank 850)
      else if u = ''S_20250101_003000_59.fit.gz'' then Inr (blank 900)
      else Inl HTTPError)"

text \<open>The same day with the request for the second file refused.\<close>

definition fetch_second_refused :: "string \<Rightarrow> exn + int ndarray" where
  "fetch_second_refused u =
     (if u = ''S_20250101_001500_59.fit.gz'' then Inl HTTPError else fetch_three u)"

text \<open>Two small files with two frequency bins.\<close>

definition fetch_small :: "string \<Rightarrow> exn + int ndarray" where
  "fetch_small u =
     (if u = ''S_20250101_000000_59.fit.gz''
      then Inr \<lparr>shape0 = 2, shape1 = 2, rows = [[1, 2], [3, 4]]\<rparr>
      else if u = ''S_20250101_001500_59.fit.gz''
      then Inr \<lparr>shape0 = 2, shape1 = 1, rows = [[5], [6]]\<rparr>
      else Inl HTTPError)"

text \<open>A source that answers every request with the same one-row array.\<close>

definition fetch_any :: "string \<Rightarrow> exn + int ndarray" where
  "fetch_any u = Inr (blank 900)"

definition three_urls :: "string list" where
  "three_urls = [''S_20250101_000000_59.fit.gz'', ''S_20250101_001500_59.fit.gz'',
                 ''S_20250101_003000_59.fit.gz'']"

text \<open>
  Two monthly tables with one row for 31 January 2025; the row of the second has a fifth
  tab-separated field.
\<close>

definition table_four :: string where
  "table_four = ''# Date  Time  Type  Stations'' @ [CHR 0x0A]
      @ ''20250131'' @ [CHR 0x09] @ ''03:00-03:01'' @ [CHR 0x09] @ ''III'' @ [CHR 0x09]
      @ ''AUSTRIA-UNIGRAZ, GERMANY-DLR'' @ [CHR 0x0A]"

definition table_five :: string where
  "table_five = ''# Date  Time  Type  Stations'' @ [CHR 0x0A]
      @ ''20250131'' @ [CHR 0x09] @ ''03:00-03:01'' @ [CHR 0x09] @ ''III'' @ [CHR 0x09]
      @ ''AUSTRIA-UNIGRAZ, GERMANY-DLR'' @ [CHR 0x09] @ ''weak'' @ [CHR 0x0A]"

section \<open>Properties of \<open>circular_sort\<close>\<close>

lemma re_search_group: "re_search p f = Some g \<Longrightarrow> length g = 6 \<and> list_all is_digit g"
  by (induction f) (auto split: if_splits)

lemma is_digit_not_space: "is_digit c \<Longrightarrow> \<not> int_space c"
  by (auto simp: is_digit_def int_space_def Let_def)

lemma is_digit_not_sign: "is_digit c \<Longrightarrow> c \<noteq> CHR ''-'' \<and> c \<noteq> CHR ''+''"
  by (auto simp: is_digit_def)

lemma py_int_two_digits:
  "is_digit a \<Longrightarrow> is_digit b \<Longrightarrow> py_int [a, b] = Some (digit_val a * 10 + digit_val b)"
  by (simp add: py_int_def int_strip_def is_digit_not_space is_digit_not_sign py_unsigned_def)

text \<open>
  \<open>int()\<close> drops a no-break space and refuses a unit separator, which \<open>str.strip()\<close>
  would drop.
\<close>

lemma py_int_separators:
  "py_int (CHR 0xA0 # ''09'') = Some 9"
  "py_int (CHR 0x1F # ''09'') = None"
  "py_strip (CHR 0x1F # ''09'') = ''09''"
  by code_simp+

lemma hhmmss_to_seconds_digits:
  assumes "length g = 6" "list_all is_digit g"
  shows "\<exists>t. hhmmss_to_seconds g = Inr t"
proof -
  from assms(1) obtain a b c d e f where g: "g = [a, b, c, d, e, f]"
    by (auto simp: length_Suc_conv eval_nat_numeral)
  with assms(2) show ?thesis
    by (simp add: hhmmss_to_seconds_def py_int_two_digits)
qed

text \<open>The loop over the files cannot raise: every captured group is six digits.\<close>

lemma time_file_pairs_total:
  "\<exists>ps. time_file_pairs p files = Inr ps
        \<and> map snd ps = filter (\<lambda>f. re_search p f \<noteq> None) files"
proof (induction files)
  case Nil
  then show ?case by simp
next
  case (Cons f fs)
  then obtain ps where ps: "time_file_pairs p fs = Inr ps"
    "map snd ps = filter (\<lambda>f. re_search p f \<noteq> None) fs" by blast
  show ?case
  proof (cases "re_search p f")
    case None
    with ps show ?thesis by simp
  next
    case (Some g)
    then obtain t where "hhmmss_to_seconds g = Inr t"
      using re_search_group hhmmss_to_seconds_digits by blast
    with Some ps show ?thesis by simp
  qed
qed

lemma first_at_least_Some:
  "first_at_least ts off = Some i \<Longrightarrow> i < length ts \<and> off \<le> ts ! i \<and> (\<forall>j<i. ts ! j < off)"
proof (induction ts arbitrary: i)
  case Nil
  then show ?case by simp
next
  case (Cons t ts)
  show ?case
  proof (cases "off \<le> t")
    case True
    with Cons.prems show ?thesis by simp
  next
    case False
    with Cons.prems obtain k where k: "first_at_least ts off = Some k" "i = Suc k"
      by auto
    from Cons.IH[OF k(1)] False k(2) show ?thesis
      by (auto simp: less_Suc_eq_0_disj)
  qed
qed

lemma first_at_least_None:
  "first_at_least ts off = None \<longleftrightarrow> (\<forall>t\<in>set ts. t < off)"
  by (induction ts) auto

lemma circular_sort_unfold:
  assumes "files = f0 # rest" "choose_time_re f0 = Some p" "time_file_pairs p files = Inr ps"
    and "hhmmss_to_seconds offset = Inr off"
  shows "circular_sort files offset url =
           Inr (map snd (drop (rotation_index (map fst (sort_key fst ps)) off) (sort_key fst ps))
                @ map snd (take (rotation_index (map fst (sort_key fst ps)) off) (sort_key fst ps)))"
  using assms by (simp add: circular_sort_def Let_def)

lemma circular_sort_Inr_cases:
  assumes "circular_sort files offset url = Inr out"
  obtains f0 rest p ps off where "files = f0 # rest" "choose_time_re f0 = Some p"
    "time_file_pairs p files = Inr ps" "hhmmss_to_seconds offset = Inr off"
  using assms
  by (auto simp: circular_sort_def Let_def split: list.splits option.splits sum.splits)

lemma rotate_mset: "mset (map snd (drop i xs) @ map snd (take i xs)) = mset (map snd xs)"
proof -
  have "mset (map snd (drop i xs) @ map snd (take i xs)) = mset (map snd (take i xs @ drop i xs))"
    by (simp only: map_append mset_append add.commute)
  then show ?thesis by simp
qed

lemma circular_sort_mset:
  assumes "circular_sort files offset url = Inr out"
  shows "\<exists>f0 rest p. files = f0 # rest \<and> choose_time_re f0 = Some p
           \<and> mset out = mset (filter (\<lambda>f. re_search p f \<noteq> None) files)"
proof -
  from assms obtain f0 rest p ps off where c: "files = f0 # rest" "choose_time_re f0 = Some p"
    "time_file_pairs p files = Inr ps" "hhmmss_to_seconds offset = Inr off"
    by (rule circular_sort_Inr_cases)
  from time_file_pairs_total[of p files] c(3)
  have ps: "map snd ps = filter (\<lambda>f. re_search p f \<noteq> None) files" by simp
  from assms circular_sort_unfold[OF c, of url]
  have "out = map snd (drop (rotation_index (map fst (sort_key fst ps)) off) (sort_key fst ps))
                @ map snd (take (rotation_index (map fst (sort_key fst ps)) off) (sort_key fst ps))"
    by simp
  then have "mset out = mset (map snd (sort_key fst ps))"
    by (simp only: rotate_mset)
  also have "\<dots> = mset (map snd ps)"
    by (metis mset_map mset_sort)
  finally show ?thesis using c ps by simp
qed

text \<open>
  C5. For a non-empty list of file names whose first name fixes the pattern and a
  six-digit offset, \<open>circular_sort\<close> returns. The matched (time, name) pairs are sorted
  ascending by time and the sort is stable: pairs with the same time keep their input
  order. The result is the sorted list rotated at \<open>idx\<close>: when some time is at least the
  offset, \<open>idx\<close> is the first sorted position holding such a time; when every time is
  below the offset, \<open>idx\<close> is 0 and the result is the sorted order itself. The witness is
  the example with the times 093000, 100000, 080000 and the offset 090000.
\<close>

theorem circular_sort_rotation:
  assumes "files = f0 # rest" and "choose_time_re f0 = Some p"
    and "length offset = 6" and "list_all is_digit offset"
  shows "\<exists>ps off sorted_pairs idx.
           time_file_pairs p files = Inr ps
         \<and> hhmmss_to_seconds offset = Inr off
         \<and> sorted_pairs = sort_key fst ps
         \<and> sorted (map fst sorted_pairs)
         \<and> (\<forall>k. filter (\<lambda>x. fst x = k) sorted_pairs = filter (\<lambda>x. fst x = k) ps)
         \<and> circular_sort files offset url
             = Inr (map snd (drop idx sorted_pairs) @ map snd (take idx sorted_pairs))
         \<and> ((\<exists>x\<in>set sorted_pairs. off \<le> fst x) \<longrightarrow>
               idx < length sorted_pairs \<and> off \<le> fst (sorted_pairs ! idx)
               \<and> (\<forall>j<idx. fst (sorted_pairs ! j) < off))
         \<and> ((\<forall>x\<in>set sorted_pairs. fst x < off) \<longrightarrow>
               idx = 0 \<and> circular_sort files offset url = Inr (map snd sorted_pairs))"
proof -
  obtain ps where ps: "time_file_pairs p files = Inr ps"
    using time_file_pairs_total by blast
  obtain off where off: "hhmmss_to_seconds offset = Inr off"
    using hhmmss_to_seconds_digits[OF assms(3,4)] by blast
  define sp where "sp = sort_key fst ps"
  define idx where "idx = rotation_index (map fst sp) off"
  have out: "circular_sort files offset url = Inr (map snd (drop idx sp) @ map snd (take idx sp))"
    unfolding idx_def sp_def by (rule circular_sort_unfold[OF assms(1,2) ps off])
  have srt: "sorted (map fst sp)" unfolding sp_def by simp
  have stable: "\<forall>k. filter (\<lambda>x. fst x = k) sp = filter (\<lambda>x. fst x = k) ps"
    unfolding sp_def by (simp add: sort_key_stable)
  have some: "(\<exists>x\<in>set sp. off \<le> fst x) \<longrightarrow>
               idx < length sp \<and> off \<le> fst (sp ! idx) \<and> (\<forall>j<idx. fst (sp ! j) < off)"
  proof
    assume "\<exists>x\<in>set sp. off \<le> fst x"
    then have "\<exists>t\<in>set (map fst sp). off \<le> t" by auto
    then have "first_at_least (map fst sp) off \<noteq> None"
      unfolding first_at_least_None by (meson not_less)
    then obtain i where i: "first_at_least (map fst sp) off = Some i" by blast
    then have "idx = i" by (simp add: idx_def rotation_index_def)
    with first_at_least_Some[OF i]
    show "idx < length sp \<and> off \<le> fst (sp ! idx) \<and> (\<forall>j<idx. fst (sp ! j) < off)"
      by auto
  qed
  have none: "(\<forall>x\<in>set sp. fst x < off) \<longrightarrow>
               idx = 0 \<and> circular_sort files offset url = Inr (map snd sp)"
  proof
    assume "\<forall>x\<in>set sp. fst x < off"
    then have "first_at_least (map fst sp) off = None"
      by (auto simp: first_at_least_None)
    then have "idx = 0" by (simp add: idx_def rotation_index_def)
    with out show "idx = 0 \<and> circular_sort files offset url = Inr (map snd sp)" by simp
  qed
  from ps off srt stable out some none show ?thesis
    unfolding sp_def by blast
qed

theorem circular_sort_rotation_witness:
  "choose_time_re ''s_093000_59.fit'' = Some Underscore_re
   \<and> length ''090000'' = 6 \<and> list_all is_digit ''090000''
   \<and> sort_key fst [(34200::int, ''s_093000_59.fit''), (36000, ''s_100000_59.fit''),
                    (28800, ''s_080000_59.fit'')]
       = [(28800, ''s_080000_59.fit''), (34200, ''s_093000_59.fit''),
          (36000, ''s_100000_59.fit'')]
   \<and> circular_sort [''s_093000_59.fit'', ''s_100000_59.fit'', ''s_080000_59.fit'']
        ''090000'' ''u''
       = Inr [''s_093000_59.fit'', ''s_100000_59.fit'', ''s_080000_59.fit'']
   \<and> circular_sort [''s_093000_59.fit'', ''s_100000_59.fit'', ''s_080000_59.fit'']
        ''230000'' ''u''
       = Inr [''s_080000_59.fit'', ''s_093000_59.fit'', ''s_100000_59.fit'']"
proof -
  have h1: "choose_time_re ''s_093000_59.fit'' = Some Underscore_re" by code_simp
  have h2: "length ''090000'' = 6" by simp
  have h3: "list_all is_digit ''090000''" by code_simp
  have s: "sort_key fst [(34200::int, ''s_093000_59.fit''), (36000, ''s_100000_59.fit''),
                    (28800, ''s_080000_59.fit'')]
       = [(28800, ''s_080000_59.fit''), (34200, ''s_093000_59.fit''),
          (36000, ''s_100000_59.fit'')]" by simp
  have r1: "circular_sort [''s_093000_59.fit'', ''s_100000_59.fit'', ''s_080000_59.fit'']
        ''090000'' ''u''
       = Inr [''s_093000_59.fit'', ''s_100000_59.fit'', ''s_080000_59.fit'']" by code_simp
  have r2: "circular_sort [''s_093000_59.fit'', ''s_100000_59.fit'', ''s_080000_59.fit'']
        ''230000'' ''u''
       = Inr [''s_080000_59.fit'', ''s_093000_59.fit'', ''s_100000_59.fit'']" by code_simp
  from circular_sort_rotation[OF refl h1 h2 h3,
      of "[''s_100000_59.fit'', ''s_080000_59.fit'']" "''u''"]
  show ?thesis using h1 h2 h3 s r1 r2 by blast
qed

text \<open>
  C6. Whenever \<open>circular_sort\<close> returns, its result has the same elements with the same
  multiplicities as the input names that match the pattern chosen from the first name:
  sorting and rotating neither drop nor duplicate a matched file.
\<close>

theorem circular_sort_permutation:
  assumes "circular_sort files offset url = Inr out"
  shows "\<exists>f0 rest p. files = f0 # rest \<and> choose_time_re f0 = Some p
           \<and> mset out = mset (filter (\<lambda>f. re_search p f \<noteq> None) files)"
  using assms by (rule circular_sort_mset)

theorem circular_sort_permutation_witness:
  "circular_sort [''s_093000_59.fit'', ''readme.txt'', ''s_080000_59.fit''] ''090000'' ''u''
     = Inr [''s_093000_59.fit'', ''s_080000_59.fit'']
   \<and> mset [''s_093000_59.fit'', ''s_080000_59.fit'']
       = mset (filter (\<lambda>f. re_search Underscore_re f \<noteq> None)
                 [''s_093000_59.fit'', ''readme.txt'', ''s_080000_59.fit''])"
proof -
  have r: "circular_sort [''s_093000_59.fit'', ''readme.txt'', ''s_080000_59.fit''] ''090000'' ''u''
     = Inr [''s_093000_59.fit'', ''s_080000_59.fit'']"
    by code_simp
  have p: "choose_time_re ''s_093000_59.fit'' = Some Underscore_re"
    by code_simp
  from circular_sort_permutation[OF r] p show ?thesis
    using r by auto
qed

lemma hhmmss_to_seconds_error: "hhmmss_to_seconds s = Inl e \<Longrightarrow> e = ValueError"
  by (auto simp: hhmmss_to_seconds_def split: option.splits)

lemma time_file_pairs_error: "time_file_pairs p fs = Inl e \<Longrightarrow> e = ValueError"
  using time_file_pairs_total[of p fs] by auto

text \<open>
  C2, as the code has it. The pattern is decided on the first file name alone: the
  underscore pattern when that name matches it, the \<open>i\<close> pattern exactly when that name
  does not match the underscore pattern but matches the \<open>i\<close> pattern, and the fatal exit
  that reports \<open>url\<close> exactly when that name matches neither. The pattern chosen is then
  applied to every name of the list: the result is made of the names that match it.
\<close>

theorem circular_sort_first_file_decides:
  assumes "files = f0 # rest"
  shows "(circular_sort files offset url
            = Inl (SystemExit (''ERROR: No matching time formats found at: '' @ url))
          \<longleftrightarrow> re_search Underscore_re f0 = None \<and> re_search Intensity_re f0 = None)
       \<and> (choose_time_re f0 = Some Underscore_re \<longleftrightarrow> re_search Underscore_re f0 \<noteq> None)
       \<and> (choose_time_re f0 = Some Intensity_re
            \<longleftrightarrow> re_search Underscore_re f0 = None \<and> re_search Intensity_re f0 \<noteq> None)
       \<and> (\<forall>out. circular_sort files offset url = Inr out \<longrightarrow>
            (\<exists>p. choose_time_re f0 = Some p
               \<and> mset out = mset (filter (\<lambda>f. re_search p f \<noteq> None) files)))"
proof -
  have a: "circular_sort files offset url
            = Inl (SystemExit (''ERROR: No matching time formats found at: '' @ url))
          \<longleftrightarrow> re_search Underscore_re f0 = None \<and> re_search Intensity_re f0 = None"
    using assms time_file_pairs_error[of _ files] hhmmss_to_seconds_error[of offset]
    by (auto simp: circular_sort_def choose_time_re_def Let_def split: sum.splits)
  have b: "choose_time_re f0 = Some Underscore_re \<longleftrightarrow> re_search Underscore_re f0 \<noteq> None"
    by (auto simp: choose_time_re_def)
  have c: "choose_time_re f0 = Some Intensity_re
            \<longleftrightarrow> re_search Underscore_re f0 = None \<and> re_search Intensity_re f0 \<noteq> None"
    by (auto simp: choose_time_re_def)
  have d: "\<forall>out. circular_sort files offset url = Inr out \<longrightarrow>
            (\<exists>p. choose_time_re f0 = Some p
               \<and> mset out = mset (filter (\<lambda>f. re_search p f \<noteq> None) files))"
    using circular_sort_mset[of files offset url] assms by auto
  from a b c d show ?thesis by blast
qed

theorem circular_sort_first_file_decides_witness:
  "circular_sort [''s_120000i.fit'', ''s_123456_59.fit'', ''s_110000i.fit''] ''000000'' ''u''
     = Inr [''s_110000i.fit'', ''s_120000i.fit'']
   \<and> choose_time_re ''s_120000i.fit'' = Some Intensity_re
   \<and> mset [''s_110000i.fit'', ''s_120000i.fit'']
       = mset (filter (\<lambda>f. re_search Intensity_re f \<noteq> None)
                 [''s_120000i.fit'', ''s_123456_59.fit'', ''s_110000i.fit''])"
proof -
  have r: "circular_sort [''s_120000i.fit'', ''s_123456_59.fit'', ''s_110000i.fit''] ''000000'' ''u''
     = Inr [''s_110000i.fit'', ''s_120000i.fit'']" by code_simp
  have p: "choose_time_re ''s_120000i.fit'' = Some Intensity_re" by code_simp
  from circular_sort_first_file_decides[OF refl,
      of "''s_120000i.fit''" "[''s_123456_59.fit'', ''s_110000i.fit'']" "''000000''" "''u''"]
  show ?thesis using r p by auto
qed

text \<open>
  C2, as the specification words it, fails. In the first list the second name matches
  the underscore pattern, and still the \<open>i\<close> pattern is used and that name is left out;
  in the second list a name matches the underscore pattern, and still the call exits.
\<close>

theorem circular_sort_whole_set_counterexample:
  "re_search Underscore_re ''s_123456_59.fit'' \<noteq> None
   \<and> circular_sort [''s_120000i.fit'', ''s_123456_59.fit''] ''000000'' ''u''
       = Inr [''s_120000i.fit'']
   \<and> circular_sort [''s_index.html'', ''s_123456_59.fit''] ''000000'' ''u''
       = Inl (SystemExit ''ERROR: No matching time formats found at: u'')"
  by code_simp

section \<open>Properties of the loop of \<open>one_day\<close>\<close>

lemma one_day_step_fetch_fails:
  "fetch u = Inl e \<Longrightarrow> one_day_step fetch bl u st = Inl e"
  by (simp add: one_day_step_def download_fits_from_gz_def)

lemma one_day_loop_fetch_fails:
  "u \<in> set urls \<Longrightarrow> fetch u = Inl e \<Longrightarrow> \<exists>e'. one_day_loop fetch bl urls st = Inl e'"
proof (induction urls arbitrary: st)
  case Nil
  then show ?case by simp
next
  case (Cons v urls)
  show ?case
  proof (cases "one_day_step fetch bl v st")
    case (Inl e')
    then show ?thesis by simp
  next
    case (Inr st')
    with Cons.prems one_day_step_fetch_fails[of fetch u e bl st] have "u \<in> set urls" by auto
    with Cons.IH[OF this Cons.prems(2), of st'] Inr show ?thesis by simp
  qed
qed

lemma one_day_step_no_underscore:
  "re_search Underscore_re u = None \<Longrightarrow> \<exists>e. one_day_step fetch (Some bl) u st = Inl e"
  by (simp add: one_day_step_def download_fits_from_gz_def find_bursts_def split: sum.splits)

lemma one_day_loop_no_underscore:
  "u \<in> set urls \<Longrightarrow> re_search Underscore_re u = None
     \<Longrightarrow> \<exists>e. one_day_loop fetch (Some bl) urls st = Inl e"
proof (induction urls arbitrary: st)
  case Nil
  then show ?case by simp
next
  case (Cons v urls)
  show ?case
  proof (cases "one_day_step fetch (Some bl) v st")
    case (Inl e')
    then show ?thesis by simp
  next
    case (Inr st')
    with Cons.prems one_day_step_no_underscore[of u fetch bl st] have "u \<in> set urls" by auto
    with Cons.IH[OF this Cons.prems(2), of st'] Inr show ?thesis by simp
  qed
qed

lemma assemble_loop_error:
  "one_day_loop fetch bl urls day_init = Inl e \<Longrightarrow> assemble fetch bl urls = Inl e"
  by (simp add: assemble_def)

text \<open>
  C10. Take a day whose first station file matches the \<open>i\<close> pattern and not the
  underscore pattern. \<open>find_bursts\<close> on that file raises \<open>AttributeError\<close> whatever the
  array and the bursts are; \<open>circular_sort\<close>, when it returns, keeps the file; and
  \<open>one_day\<close> with a burst list (even an empty one) never returns a spectrogram.
\<close>

theorem pattern_b_day_cannot_complete:
  assumes "listing = Inr files" and "filter (sublist station) files = f0 # rest"
    and "re_search Underscore_re f0 = None" and "re_search Intensity_re f0 = Some g"
  shows "find_bursts arr bl f0 results cur = Inl AttributeError
       \<and> (\<forall>sorted_files. circular_sort (f0 # rest) offset url = Inr sorted_files
             \<longrightarrow> f0 \<in> set sorted_files)
       \<and> (\<exists>e. one_day fetch listing url station offset (Some bl) = Inl e)"
proof -
  have a: "find_bursts arr bl f0 results cur = Inl AttributeError"
    using assms(3) by (simp add: find_bursts_def)
  have p: "choose_time_re f0 = Some Intensity_re"
    using assms(3,4) by (simp add: choose_time_re_def)
  have b: "f0 \<in> set sorted_files" if s: "circular_sort (f0 # rest) offset url = Inr sorted_files"
    for sorted_files
  proof -
    from circular_sort_mset[OF s] p
    have "mset sorted_files = mset (filter (\<lambda>f. re_search Intensity_re f \<noteq> None) (f0 # rest))"
      by auto
    then have "set sorted_files = set (filter (\<lambda>f. re_search Intensity_re f \<noteq> None) (f0 # rest))"
      by (rule mset_eq_setD)
    with assms(4) show ?thesis by simp
  qed
  have c: "\<exists>e. one_day fetch listing url station offset (Some bl) = Inl e"
  proof (cases "circular_sort (f0 # rest) offset url")
    case (Inl e)
    with assms(1,2) show ?thesis by (simp add: one_day_def)
  next
    case (Inr sorted_files)
    from b[OF Inr] assms(3) obtain e
      where "one_day_loop fetch (Some bl) sorted_files day_init = Inl e"
      using one_day_loop_no_underscore by blast
    then have "assemble fetch (Some bl) sorted_files = Inl e" by (rule assemble_loop_error)
    with Inr assms(1,2) show ?thesis by (simp add: one_day_def)
  qed
  from a b c show ?thesis by blast
qed

theorem pattern_b_day_cannot_complete_witness:
  "filter (sublist ''LEARMONTH'')
      [''LEARMONTH_20040101_120000i.fit.gz'', ''BLEN_20040101_120000i.fit.gz'']
      = [''LEARMONTH_20040101_120000i.fit.gz'']
   \<and> re_search Underscore_re ''LEARMONTH_20040101_120000i.fit.gz'' = None
   \<and> re_search Intensity_re ''LEARMONTH_20040101_120000i.fit.gz'' = Some ''120000''
   \<and> circular_sort [''LEARMONTH_20040101_120000i.fit.gz''] ''000000'' ''u''
        = Inr [''LEARMONTH_20040101_120000i.fit.gz'']
   \<and> one_day fetch_any
        (Inr [''LEARMONTH_20040101_120000i.fit.gz'', ''BLEN_20040101_120000i.fit.gz''])
        ''u'' ''LEARMONTH'' ''000000'' (Some [''12:01-12:02'']) = Inl AttributeError"
proof -
  have h2: "filter (sublist ''LEARMONTH'')
      [''LEARMONTH_20040101_120000i.fit.gz'', ''BLEN_20040101_120000i.fit.gz'']
      = [''LEARMONTH_20040101_120000i.fit.gz'']" by code_simp
  have h3: "re_search Underscore_re ''LEARMONTH_20040101_120000i.fit.gz'' = None"
    by code_simp
  have h4: "re_search Intensity_re ''LEARMONTH_20040101_120000i.fit.gz'' = Some ''120000''"
    by code_simp
  have s: "circular_sort [''LEARMONTH_20040101_120000i.fit.gz''] ''000000'' ''u''
        = Inr [''LEARMONTH_20040101_120000i.fit.gz'']" by code_simp
  have r: "one_day fetch_any
        (Inr [''LEARMONTH_20040101_120000i.fit.gz'', ''BLEN_20040101_120000i.fit.gz''])
        ''u'' ''LEARMONTH'' ''000000'' (Some [''12:01-12:02'']) = Inl AttributeError"
    by code_simp
  from pattern_b_day_cannot_complete[OF refl h2 h3 h4,
      of _ "[''12:01-12:02'']" _ _ "''000000''" "''u''" fetch_any]
  show ?thesis using h2 h3 h4 s r by blast
qed

section \<open>Properties of \<open>find_bursts\<close>\<close>

text \<open>On a non-empty range the clamp is the usual composition of \<open>max\<close> and \<open>min\<close>.\<close>

lemma spec_clamp_min_max: "lo \<le> hi \<Longrightarrow> spec_clamp x lo hi = min (max x lo) hi"
  by (auto simp: spec_clamp_def)

text \<open>
  The start time of a file is a time code of six digits, and below \<open>2 ^ 52\<close> samples
  the float \<open>file_start_sec + nx / 4\<close> is the exact sum: nothing is rounded.
\<close>

lemma digit_val_range: "is_digit c \<Longrightarrow> 0 \<le> digit_val c \<and> digit_val c \<le> 9"
  by (auto simp: is_digit_def digit_val_def Let_def)

lemma two_digit_range:
  "is_digit a \<Longrightarrow> is_digit b
     \<Longrightarrow> 0 \<le> digit_val a * 10 + digit_val b \<and> digit_val a * 10 + digit_val b \<le> 99"
  using digit_val_range[of a] digit_val_range[of b] by simp

lemma hms_range:
  fixes x y z :: int
  assumes "0 \<le> x \<and> x \<le> 99" "0 \<le> y \<and> y \<le> 99" "0 \<le> z \<and> z \<le> 99"
  shows "0 \<le> x * 3600 + y * 60 + z \<and> x * 3600 + y * 60 + z \<le> 362439"
proof -
  have "0 \<le> x * 3600 + y * 60 + z" using assms by simp
  moreover have "x * 3600 + y * 60 + z \<le> 362439" using assms by arith
  ultimately show ?thesis by blast
qed

lemma hhmmss_to_seconds_range:
  assumes "length g = 6" "list_all is_digit g" "hhmmss_to_seconds g = Inr t"
  shows "0 \<le> t \<and> t \<le> 362439"
proof -
  from assms(1) obtain a b c d e f where g: "g = [a, b, c, d, e, f]"
    by (auto simp: length_Suc_conv eval_nat_numeral)
  with assms(2) have dg: "is_digit a" "is_digit b" "is_digit c" "is_digit d" "is_digit e"
    "is_digit f" by simp_all
  from assms(3) g dg
  have t: "t = (digit_val a * 10 + digit_val b) * 3600 + (digit_val c * 10 + digit_val d) * 60
              + (digit_val e * 10 + digit_val f)"
    by (simp add: hhmmss_to_seconds_def py_int_two_digits)
  show ?thesis
    unfolding t
    by (rule hms_range) (simp_all only: two_digit_range dg)
qed

lemma neg_bound: "(0::int) \<le> m \<Longrightarrow> 0 < k \<Longrightarrow> \<not> m \<le> - k"
  by linarith

lemma file_start_range:
  "re_search p f = Some g \<Longrightarrow> hhmmss_to_seconds g = Inr t \<Longrightarrow> 0 \<le> t \<and> t \<le> 362439"
  using re_search_group hhmmss_to_seconds_range by blast

lemma round53_small: "n < 2 ^ 53 \<Longrightarrow> round53 n = n"
  by (simp add: round53_def)

lemma file_end_exact:
  assumes "nx < 2 ^ 52" and "0 \<le> fs" and "fs \<le> 362439"
  shows "int_truediv_4 nx = Inr (of_nat nx / 4)"
    and "float_of_int fs = Inr (of_int fs)"
    and "float_add_quarters (of_int fs) (of_nat nx / 4)
           = Float_val (of_int fs + of_nat nx / 4)"
proof -
  have nx53: "nx < 2 ^ 53" using assms(1) by simp
  have big: "\<not> (2::nat) ^ 1026 \<le> nx"
  proof -
    have "(2::nat) ^ 52 \<le> 2 ^ 1026" by (rule power_increasing) simp_all
    with assms(1) show ?thesis by linarith
  qed
  show "int_truediv_4 nx = Inr (of_nat nx / 4)"
    using big by (simp add: int_truediv_4_def round53_small[OF nx53])
  have fs53: "nat fs < 2 ^ 53" using assms(2,3) by simp
  have r: "round53_int fs = fs"
    using assms(2) by (simp add: round53_int_def round53_small[OF fs53])
  have "\<bar>fs\<bar> < 2 ^ 20" using assms(2,3) by simp
  also have "(2::int) ^ 20 \<le> 2 ^ 1024" by (rule power_increasing) simp_all
  finally have "\<not> 2 ^ 1024 \<le> \<bar>fs\<bar>" by simp
  then show "float_of_int fs = Inr (of_int fs)"
    by (simp add: float_of_int_def r)
  define m where "m = 4 * fs + int nx"
  have fl: "\<lfloor>(of_int fs + of_nat nx / 4 :: rat) * 4\<rfloor> = m"
  proof -
    have "(of_int fs + of_nat nx / 4 :: rat) * 4 = of_int m"
      by (simp add: m_def algebra_simps)
    then show ?thesis by simp
  qed
  have m0: "0 \<le> m" using assms(2) by (simp add: m_def)
  have "m < 4 * 362440 + 2 ^ 52" using assms by (simp add: m_def)
  then have m53: "nat m < 2 ^ 53" using m0 by simp
  have rm: "round53_int m = m"
    using m0 by (simp add: round53_int_def round53_small[OF m53])
  have "m < 2 ^ 53" using m53 m0 by simp
  also have "(2::int) ^ 53 \<le> 2 ^ 1026" by (rule power_increasing) simp_all
  finally have up: "\<not> 2 ^ 1026 \<le> m" by simp
  have "(0::int) < 2 ^ 1026" by (rule zero_less_power) simp
  with m0 have lo: "\<not> m \<le> - (2 ^ 1026)" by (rule neg_bound)
  have eq: "(of_int m / 4 :: rat) = of_int fs + of_nat nx / 4"
    by (simp add: m_def)
  show "float_add_quarters (of_int fs) (of_nat nx / 4)
           = Float_val (of_int fs + of_nat nx / 4)"
    unfolding float_add_quarters_def Let_def fl rm
    using up lo by (simp only: if_False eq)
qed




lemma find_bursts_exact:
  assumes "re_search Underscore_re filename = Some hhmmss"
    and "hhmmss_to_seconds hhmmss = Inr fs"
    and "shape1 arr < 2 ^ 52"
  shows "find_bursts arr bl filename results cur =
           (case find_bursts_loop (shape1 arr) fs
                   (Float_val (of_int fs + of_nat (shape1 arr) / 4)) cur bl results of
              Inl e \<Rightarrow> Inl e
            | Inr r \<Rightarrow> Inr (r, cur + int (shape1 arr)))"
proof -
  from file_start_range[OF assms(1,2)] have fs: "0 \<le> fs" "fs \<le> 362439" by simp_all
  note ex = file_end_exact[OF assms(3) fs]
  show ?thesis
    by (simp only: find_bursts_def Let_def assms(1,2) ex option.case sum.case)
qed



section \<open>The cursor\<close>

lemma burst_entry_bounds:
  assumes "burst_entry nx fs fe cur b = Inr new"
  shows "\<forall>e\<in>set new. cur - 240 \<le> start_idx e \<and> end_idx e \<le> cur + int nx - 1 + 240"
  using assms
  by (auto simp: burst_entry_def Let_def split: sum.splits prod.splits if_splits)

lemma find_bursts_loop_appends:
  assumes "find_bursts_loop nx fs fe cur bl results = Inr res'"
  shows "\<exists>new. res' = results @ new
           \<and> (\<forall>e\<in>set new. cur - 240 \<le> start_idx e \<and> end_idx e \<le> cur + int nx - 1 + 240)"
  using assms
proof (induction bl arbitrary: results)
  case Nil
  then show ?case by simp
next
  case (Cons b bl)
  from Cons.prems obtain new1 where n1: "burst_entry nx fs fe cur b = Inr new1"
    and rest: "find_bursts_loop nx fs fe cur bl (results @ new1) = Inr res'"
    by (auto split: sum.splits)
  from Cons.IH[OF rest] obtain new2 where n2: "res' = (results @ new1) @ new2"
    "\<forall>e\<in>set new2. cur - 240 \<le> start_idx e \<and> end_idx e \<le> cur + int nx - 1 + 240"
    by blast
  from burst_entry_bounds[OF n1] n2 have "res' = results @ (new1 @ new2)
     \<and> (\<forall>e\<in>set (new1 @ new2). cur - 240 \<le> start_idx e \<and> end_idx e \<le> cur + int nx - 1 + 240)"
    by auto
  then show ?case by blast
qed

lemma find_bursts_Inr:
  assumes "find_bursts arr bl filename results cursor = Inr (res', cur')"
  shows "cur' = cursor + int (shape1 arr)
       \<and> (\<exists>new. res' = results @ new
             \<and> (\<forall>e\<in>set new. cursor - 240 \<le> start_idx e
                              \<and> end_idx e \<le> cursor + int (shape1 arr) - 1 + 240))"
  using assms find_bursts_loop_appends
  by (fastforce simp: find_bursts_def Let_def split: option.splits sum.splits)

lemma one_day_step_Some:
  assumes "one_day_step fetch (Some bl) url st = Inr st'"
  shows "\<exists>arr. fetch url = Inr arr \<and> arrays st' = arrays st @ [arr]
           \<and> find_bursts arr bl url (burst_indices st) (current_idx st)
               = Inr (burst_indices st', current_idx st')"
  using assms
  by (auto simp: one_day_step_def download_fits_from_gz_def split: sum.splits)

lemma one_day_step_None:
  assumes "one_day_step fetch None url st = Inr st'"
  shows "\<exists>arr. fetch url = Inr arr \<and> arrays st' = arrays st @ [arr]
           \<and> burst_indices st' = burst_indices st \<and> current_idx st' = current_idx st"
  using assms
  by (auto simp: one_day_step_def download_fits_from_gz_def split: sum.splits)

text \<open>The three example files, their start times and what \<open>find_bursts\<close> does on them.\<close>

lemma shape_blank: "shape0 (blank nx) = 1" "shape1 (blank nx) = nx"
  by (simp_all add: blank_def)

lemma file_times:
  "re_search Underscore_re ''S_20250101_000000_59.fit.gz'' = Some ''000000''"
  "re_search Underscore_re ''S_20250101_001500_59.fit.gz'' = Some ''001500''"
  "re_search Underscore_re ''S_20250101_003000_59.fit.gz'' = Some ''003000''"
  "hhmmss_to_seconds ''000000'' = Inr 0"
  "hhmmss_to_seconds ''001500'' = Inr 900"
  "hhmmss_to_seconds ''003000'' = Inr 1800"
  "burst_endpoints ''00:00-00:40'' = Inr (0, 2400)"
  by code_simp+

lemma find_bursts_three:
  "find_bursts (blank 900) [''00:00-00:40''] ''S_20250101_000000_59.fit.gz'' [] 0
     = Inr ([\<lparr>burst = ''00:00-00:40'', start_idx = - 240, end_idx = 1139\<rparr>], 900)"
  "find_bursts (blank 850) [''00:00-00:40''] ''S_20250101_001500_59.fit.gz''
       [\<lparr>burst = ''00:00-00:40'', start_idx = - 240, end_idx = 1139\<rparr>] 900
     = Inr ([\<lparr>burst = ''00:00-00:40'', start_idx = - 240, end_idx = 1139\<rparr>,
             \<lparr>burst = ''00:00-00:40'', start_idx = 660, end_idx = 1989\<rparr>], 1750)"
  "find_bursts (blank 900) [''00:00-00:40''] ''S_20250101_003000_59.fit.gz''
       [\<lparr>burst = ''00:00-00:40'', start_idx = - 240, end_idx = 1139\<rparr>,
        \<lparr>burst = ''00:00-00:40'', start_idx = 660, end_idx = 1989\<rparr>] 1750
     = Inr ([\<lparr>burst = ''00:00-00:40'', start_idx = - 240, end_idx = 1139\<rparr>,
             \<lparr>burst = ''00:00-00:40'', start_idx = 660, end_idx = 1989\<rparr>,
             \<lparr>burst = ''00:00-00:40'', start_idx = 1510, end_idx = 2889\<rparr>], 2650)"
proof -
  have b900: "shape1 (blank 900) < 2 ^ 52" and b850: "shape1 (blank 850) < 2 ^ 52"
    by (simp_all add: shape_blank)
  show "find_bursts (blank 900) [''00:00-00:40''] ''S_20250101_000000_59.fit.gz'' [] 0
     = Inr ([\<lparr>burst = ''00:00-00:40'', start_idx = - 240, end_idx = 1139\<rparr>], 900)"
    by (simp add: find_bursts_exact[OF file_times(1) file_times(4) b900] file_times(7)
        burst_entry_def int_less_float_def shape_blank Let_def)
  show "find_bursts (blank 850) [''00:00-00:40''] ''S_20250101_001500_59.fit.gz''
       [\<lparr>burst = ''00:00-00:40'', start_idx = - 240, end_idx = 1139\<rparr>] 900
     = Inr ([\<lparr>burst = ''00:00-00:40'', start_idx = - 240, end_idx = 1139\<rparr>,
             \<lparr>burst = ''00:00-00:40'', start_idx = 660, end_idx = 1989\<rparr>], 1750)"
    by (simp add: find_bursts_exact[OF file_times(2) file_times(5) b850] file_times(7)
        burst_entry_def int_less_float_def shape_blank Let_def)
  show "find_bursts (blank 900) [''00:00-00:40''] ''S_20250101_003000_59.fit.gz''
       [\<lparr>burst = ''00:00-00:40'', start_idx = - 240, end_idx = 1139\<rparr>,
        \<lparr>burst = ''00:00-00:40'', start_idx = 660, end_idx = 1989\<rparr>] 1750
     = Inr ([\<lparr>burst = ''00:00-00:40'', start_idx = - 240, end_idx = 1139\<rparr>,
             \<lparr>burst = ''00:00-00:40'', start_idx = 660, end_idx = 1989\<rparr>,
             \<lparr>burst = ''00:00-00:40'', start_idx = 1510, end_idx = 2889\<rparr>], 2650)"
    by (simp add: find_bursts_exact[OF file_times(3) file_times(6) b900] file_times(7)
        burst_entry_def int_less_float_def shape_blank Let_def)
qed

text \<open>
  From \<open>2 ^ 53\<close> samples on the quotient \<open>nx / 4\<close> is rounded: with \<open>2 ^ 53 + 1\<close>
  samples the end of the file is the float \<open>2 ^ 51\<close>, a burst that starts at second
  \<open>2 ^ 51\<close> is not below it and nothing is appended, where the exact sum
  \<open>2 ^ 51 + 1 / 4\<close> would admit the burst.
\<close>

lemma bit_length_large: "bit_length 9007199254740993 = 54" "bit_length 9007199254740992 = 54"
  by (simp_all add: bit_length.simps)

lemma round_large:
  "round53 9007199254740993 = 9007199254740992" "round53 9007199254740992 = 9007199254740992"
  by (simp_all add: round53_def bit_length_large Let_def)

lemma quarter_large: "int_truediv_4 9007199254740993 = Inr 2251799813685248"
proof -
  have "(2::nat) ^ 53 < 2 ^ 1026" by (rule power_strict_increasing) simp_all
  then have "\<not> (2::nat) ^ 1026 \<le> 9007199254740992" by simp
  then show ?thesis
    unfolding int_truediv_4_def Let_def round_large by (simp only: if_False) simp
qed

lemma end_large: "float_add_quarters 0 2251799813685248 = Float_val 2251799813685248"
proof -
  have f: "\<lfloor>(0 + 2251799813685248 :: rat) * 4\<rfloor> = 9007199254740992"
  proof -
    have "(0 + 2251799813685248 :: rat) * 4 = of_int 9007199254740992" by simp
    then show ?thesis by (simp only: floor_of_int)
  qed
  have r: "round53_int 9007199254740992 = 9007199254740992"
    using round_large(2) by (simp add: round53_int_def)
  have "(2::int) ^ 53 < 2 ^ 1026" by (rule power_strict_increasing) simp_all
  then have up: "\<not> (2::int) ^ 1026 \<le> 9007199254740992" by simp
  have "(0::int) < 2 ^ 1026" by (rule zero_less_power) simp
  then have lo: "\<not> (9007199254740992::int) \<le> - (2 ^ 1026)" by (rule neg_bound[rotated]) simp
  have eq: "(of_int 9007199254740992 / 4 :: rat) = 2251799813685248" by simp
  show ?thesis
    unfolding float_add_quarters_def Let_def f r
    using up lo by (simp only: if_False eq)
qed

lemma find_bursts_rounds_large:
  "find_bursts \<lparr>shape0 = 0, shape1 = 9007199254740993, rows = []\<rparr>
     [''0:0:2251799813685248-0:0:2251799813685249''] ''S_20250101_000000_59.fit.gz'' [] 0
     = Inr ([], 9007199254740993)"
  and "spec_align 9007199254740993 0 0 ''0:0:2251799813685248-0:0:2251799813685249'' \<noteq> []"
proof -
  have e: "burst_endpoints ''0:0:2251799813685248-0:0:2251799813685249''
             = Inr (2251799813685248, 2251799813685249)" by code_simp
  have f0: "float_of_int 0 = Inr 0"
    by (simp add: float_of_int_def round53_int_def round53_def)
  show "find_bursts \<lparr>shape0 = 0, shape1 = 9007199254740993, rows = []\<rparr>
     [''0:0:2251799813685248-0:0:2251799813685249''] ''S_20250101_000000_59.fit.gz'' [] 0
     = Inr ([], 9007199254740993)"
    by (simp add: find_bursts_def file_times quarter_large f0 end_large e burst_entry_def
        int_less_float_def Let_def del: re_search.simps)
  show "spec_align 9007199254740993 0 0 ''0:0:2251799813685248-0:0:2251799813685249'' \<noteq> []"
    by (simp add: spec_align_def e spec_align_entry_def)
qed

text \<open>
  C7, as the code has it. \<open>find_bursts\<close> only appends to the accumulator, the entries
  it appends are placed from the cursor it was called with, and it returns that cursor
  advanced by the sample count of the file. An iteration of \<open>one_day\<close> with a burst
  list calls \<open>find_bursts\<close> with the cursor of the incoming state and stores the cursor
  that \<open>find_bursts\<close> returns; an iteration without a burst list leaves the cursor and
  the accumulator as they are.
\<close>

theorem find_bursts_returns_advanced_cursor:
  "(\<forall>res' cur'. find_bursts arr bl filename results cursor = Inr (res', cur') \<longrightarrow>
       cur' = cursor + int (shape1 arr)
       \<and> (\<exists>new. res' = results @ new
             \<and> (\<forall>e\<in>set new. cursor - 240 \<le> start_idx e
                              \<and> end_idx e \<le> cursor + int (shape1 arr) - 1 + 240)))
   \<and> (\<forall>st'. one_day_step fetch (Some bl) url st = Inr st' \<longrightarrow>
         (\<exists>a. fetch url = Inr a \<and> arrays st' = arrays st @ [a]
            \<and> find_bursts a bl url (burst_indices st) (current_idx st)
                = Inr (burst_indices st', current_idx st')
            \<and> current_idx st' = current_idx st + int (shape1 a)))
   \<and> (\<forall>st'. one_day_step fetch None url st = Inr st' \<longrightarrow>
         current_idx st' = current_idx st \<and> burst_indices st' = burst_indices st)"
proof -
  have a: "\<forall>res' cur'. find_bursts arr bl filename results cursor = Inr (res', cur') \<longrightarrow>
       cur' = cursor + int (shape1 arr)
       \<and> (\<exists>new. res' = results @ new
             \<and> (\<forall>e\<in>set new. cursor - 240 \<le> start_idx e
                              \<and> end_idx e \<le> cursor + int (shape1 arr) - 1 + 240))"
    using find_bursts_Inr by blast
  have b: "\<forall>st'. one_day_step fetch (Some bl) url st = Inr st' \<longrightarrow>
         (\<exists>a. fetch url = Inr a \<and> arrays st' = arrays st @ [a]
            \<and> find_bursts a bl url (burst_indices st) (current_idx st)
                = Inr (burst_indices st', current_idx st')
            \<and> current_idx st' = current_idx st + int (shape1 a))"
  proof (intro allI impI)
    fix st' assume "one_day_step fetch (Some bl) url st = Inr st'"
    from one_day_step_Some[OF this] obtain a where a: "fetch url = Inr a"
      "arrays st' = arrays st @ [a]"
      "find_bursts a bl url (burst_indices st) (current_idx st)
               = Inr (burst_indices st', current_idx st')" by blast
    from find_bursts_Inr[OF a(3)] have "current_idx st' = current_idx st + int (shape1 a)"
      by simp
    with a show "\<exists>a. fetch url = Inr a \<and> arrays st' = arrays st @ [a]
            \<and> find_bursts a bl url (burst_indices st) (current_idx st)
                = Inr (burst_indices st', current_idx st')
            \<and> current_idx st' = current_idx st + int (shape1 a)" by blast
  qed
  have c: "\<forall>st'. one_day_step fetch None url st = Inr st' \<longrightarrow>
         current_idx st' = current_idx st \<and> burst_indices st' = burst_indices st"
    using one_day_step_None by blast
  from a b c show ?thesis by blast
qed

theorem find_bursts_returns_advanced_cursor_witness:
  "find_bursts (blank 900) [''00:00-00:40''] ''S_20250101_000000_59.fit.gz'' [] 0
      = Inr ([\<lparr>burst = ''00:00-00:40'', start_idx = - 240, end_idx = 1139\<rparr>], 900)
   \<and> one_day_step fetch_three (Some [''00:00-00:40'']) ''S_20250101_000000_59.fit.gz'' day_init
      = Inr \<lparr>arrays = [blank 900],
             burst_indices = [\<lparr>burst = ''00:00-00:40'', start_idx = - 240, end_idx = 1139\<rparr>],
             current_idx = 900\<rparr>
   \<and> one_day_step fetch_three None ''S_20250101_000000_59.fit.gz'' day_init
       = Inr \<lparr>arrays = [blank 900], burst_indices = [], current_idx = 0\<rparr>"
proof -
  have f: "find_bursts (blank 900) [''00:00-00:40''] ''S_20250101_000000_59.fit.gz'' [] 0
      = Inr ([\<lparr>burst = ''00:00-00:40'', start_idx = - 240, end_idx = 1139\<rparr>], 900)"
    by (rule find_bursts_three(1))
  have s: "one_day_step fetch_three (Some [''00:00-00:40'']) ''S_20250101_000000_59.fit.gz'' day_init
      = Inr \<lparr>arrays = [blank 900],
             burst_indices = [\<lparr>burst = ''00:00-00:40'', start_idx = - 240, end_idx = 1139\<rparr>],
             current_idx = 900\<rparr>"
    by (simp add: one_day_step_def download_fits_from_gz_def fetch_three_def
        day_init_def find_bursts_three)
  have n: "one_day_step fetch_three None ''S_20250101_000000_59.fit.gz'' day_init
       = Inr \<lparr>arrays = [blank 900], burst_indices = [], current_idx = 0\<rparr>"
    by (simp add: one_day_step_def download_fits_from_gz_def fetch_three_def day_init_def)
  from find_bursts_returns_advanced_cursor[of "blank 900" "[''00:00-00:40'']"
      "''S_20250101_000000_59.fit.gz''" "[]" 0 fetch_three "''S_20250101_000000_59.fit.gz''" day_init]
  show ?thesis using f s n by blast
qed

text \<open>
  C7, as the specification words it, fails: \<open>find_bursts\<close> called with cursor 0 on a
  file of 900 samples hands back the cursor 900, and the iteration of \<open>one_day\<close> without
  a burst list appends the 900 samples and keeps the cursor at 0.
\<close>

theorem find_bursts_cursor_counterexample:
  "find_bursts (blank 900) [] ''S_20250101_000000_59.fit.gz'' [] 0 = Inr ([], 900)
   \<and> one_day_step fetch_three None ''S_20250101_000000_59.fit.gz'' day_init
       = Inr \<lparr>arrays = [blank 900], burst_indices = [], current_idx = 0\<rparr>"
proof -
  have b: "shape1 (blank 900) < 2 ^ 52" by (simp add: shape_blank)
  have f: "find_bursts (blank 900) [] ''S_20250101_000000_59.fit.gz'' [] 0 = Inr ([], 900)"
    by (simp add: find_bursts_exact[OF file_times(1) file_times(4) b] shape_blank)
  have s: "one_day_step fetch_three None ''S_20250101_000000_59.fit.gz'' day_init
       = Inr \<lparr>arrays = [blank 900], burst_indices = [], current_idx = 0\<rparr>"
    by (simp add: one_day_step_def download_fits_from_gz_def fetch_three_def day_init_def)
  from f s show ?thesis by blast
qed

lemma one_day_loop_append:
  "one_day_loop fetch bl (us @ vs) st =
     (case one_day_loop fetch bl us st of Inl e \<Rightarrow> Inl e | Inr st' \<Rightarrow> one_day_loop fetch bl vs st')"
  by (induction us arbitrary: st) (auto split: sum.splits)

lemma one_day_step_arrays:
  assumes "one_day_step fetch bl url st = Inr st'"
  shows "\<exists>a. fetch url = Inr a \<and> arrays st' = arrays st @ [a]"
  using assms one_day_step_Some one_day_step_None by (cases bl) blast+

lemma one_day_loop_arrays:
  assumes "one_day_loop fetch bl urls st = Inr st'"
  shows "\<exists>arrs. map fetch urls = map Inr arrs \<and> arrays st' = arrays st @ arrs"
  using assms
proof (induction urls arbitrary: st)
  case Nil
  then show ?case by simp
next
  case (Cons u urls)
  from Cons.prems obtain st1 where s1: "one_day_step fetch bl u st = Inr st1"
    and r: "one_day_loop fetch bl urls st1 = Inr st'"
    by (auto split: sum.splits)
  from one_day_step_arrays[OF s1] obtain a where a: "fetch u = Inr a"
    "arrays st1 = arrays st @ [a]" by blast
  from Cons.IH[OF r] obtain arrs where arrs: "map fetch urls = map Inr arrs"
    "arrays st' = arrays st1 @ arrs" by blast
  from a arrs have "map fetch (u # urls) = map Inr (a # arrs) \<and> arrays st' = arrays st @ (a # arrs)"
    by simp
  then show ?case by blast
qed

lemma one_day_loop_cursor:
  assumes "one_day_loop fetch (Some bl) urls st = Inr st'"
  shows "\<exists>arrs. arrays st' = arrays st @ arrs \<and> length arrs = length urls
           \<and> current_idx st' = current_idx st + sum_list (map (int \<circ> shape1) arrs)"
  using assms
proof (induction urls arbitrary: st)
  case Nil
  then show ?case by simp
next
  case (Cons u urls)
  from Cons.prems obtain st1 where s1: "one_day_step fetch (Some bl) u st = Inr st1"
    and r: "one_day_loop fetch (Some bl) urls st1 = Inr st'"
    by (auto split: sum.splits)
  from one_day_step_Some[OF s1] obtain a where a: "arrays st1 = arrays st @ [a]"
    "find_bursts a bl u (burst_indices st) (current_idx st)
       = Inr (burst_indices st1, current_idx st1)" by blast
  from find_bursts_Inr[OF a(2)] have c1: "current_idx st1 = current_idx st + int (shape1 a)"
    by simp
  from Cons.IH[OF r] obtain arrs where arrs: "arrays st' = arrays st1 @ arrs"
    "length arrs = length urls"
    "current_idx st' = current_idx st1 + sum_list (map (int \<circ> shape1) arrs)" by blast
  from a(1) c1 arrs have "arrays st' = arrays st @ (a # arrs) \<and> length (a # arrs) = length (u # urls)
      \<and> current_idx st' = current_idx st + sum_list (map (int \<circ> shape1) (a # arrs))"
    by simp
  then show ?case by blast
qed

lemma np_concatenate_axis1_shape1:
  "np_concatenate_axis1 arrs = Inr big \<Longrightarrow> shape1 big = sum_list (map shape1 arrs)"
  by (auto simp: np_concatenate_axis1_def split: list.splits if_splits)

lemma sum_list_int_shape1: "sum_list (map (int \<circ> shape1) arrs) = int (sum_list (map shape1 arrs))"
  by (induction arrs) auto

lemma sum_list_take_mono:
  "j \<le> k \<Longrightarrow> sum_list (map (int \<circ> shape1) (take j arrs)) \<le> sum_list (map (int \<circ> shape1) (take k arrs))"
proof -
  assume "j \<le> k"
  then have "take k arrs = take j arrs @ take (k - j) (drop j arrs)"
    by (metis le_add_diff_inverse take_add)
  moreover have "0 \<le> sum_list (map (int \<circ> shape1) (take (k - j) (drop j arrs)))"
    by (rule sum_list_nonneg) auto
  ultimately show ?thesis by simp
qed

text \<open>
  C4, as the code has it. When a burst list is supplied and the loop over the files
  ends, every file was decoded, and for every \<open>k\<close> the loop over the first \<open>k\<close> files
  ends in a state whose cursor is the sum of the sample counts of these \<open>k\<close> arrays; the
  next iteration calls \<open>find_bursts\<close> with that cursor and stores the sum over \<open>k + 1\<close>
  arrays. The sums never decrease, the final cursor is the sum over all arrays, and it
  is the length of the time axis of the concatenation. The witness is the example with
  900, 850 and 900 samples: cursors 0, 900, 1750, total 2650.
\<close>

theorem cursor_is_prefix_sum:
  assumes "one_day_loop fetch (Some bl) urls day_init = Inr st"
  shows "length (arrays st) = length urls
       \<and> current_idx st = sum_list (map (int \<circ> shape1) (arrays st))
       \<and> (\<forall>k<length urls. \<exists>st_k res.
             one_day_loop fetch (Some bl) (take k urls) day_init = Inr st_k
           \<and> arrays st_k = take k (arrays st)
           \<and> current_idx st_k = sum_list (map (int \<circ> shape1) (take k (arrays st)))
           \<and> find_bursts (arrays st ! k) bl (urls ! k) (burst_indices st_k) (current_idx st_k)
               = Inr (res, sum_list (map (int \<circ> shape1) (take (Suc k) (arrays st))))
           \<and> one_day_step fetch (Some bl) (urls ! k) st_k
               = Inr \<lparr>arrays = take (Suc k) (arrays st), burst_indices = res,
                      current_idx = sum_list (map (int \<circ> shape1) (take (Suc k) (arrays st)))\<rparr>)
       \<and> (\<forall>j k. j \<le> k \<longrightarrow>
             sum_list (map (int \<circ> shape1) (take j (arrays st)))
               \<le> sum_list (map (int \<circ> shape1) (take k (arrays st))))
       \<and> (\<forall>big. np_concatenate_axis1 (arrays st) = Inr big \<longrightarrow> int (shape1 big) = current_idx st)"
proof -
  from one_day_loop_cursor[OF assms]
  have len: "length (arrays st) = length urls"
    and tot: "current_idx st = sum_list (map (int \<circ> shape1) (arrays st))"
    by (auto simp: day_init_def)
  have pre: "\<exists>st_k res.
             one_day_loop fetch (Some bl) (take k urls) day_init = Inr st_k
           \<and> arrays st_k = take k (arrays st)
           \<and> current_idx st_k = sum_list (map (int \<circ> shape1) (take k (arrays st)))
           \<and> find_bursts (arrays st ! k) bl (urls ! k) (burst_indices st_k) (current_idx st_k)
               = Inr (res, sum_list (map (int \<circ> shape1) (take (Suc k) (arrays st))))
           \<and> one_day_step fetch (Some bl) (urls ! k) st_k
               = Inr \<lparr>arrays = take (Suc k) (arrays st), burst_indices = res,
                      current_idx = sum_list (map (int \<circ> shape1) (take (Suc k) (arrays st)))\<rparr>"
    if k: "k < length urls" for k
  proof -
    have split: "urls = take k urls @ (urls ! k) # drop (Suc k) urls"
      using k by (simp add: id_take_nth_drop)
    from assms have "one_day_loop fetch (Some bl) (take k urls @ (urls ! k) # drop (Suc k) urls) day_init = Inr st"
      using split by simp
    then obtain st_k st_k1 where
      l1: "one_day_loop fetch (Some bl) (take k urls) day_init = Inr st_k"
      and s: "one_day_step fetch (Some bl) (urls ! k) st_k = Inr st_k1"
      and l2: "one_day_loop fetch (Some bl) (drop (Suc k) urls) st_k1 = Inr st"
      by (auto simp: one_day_loop_append split: sum.splits)
    from one_day_loop_cursor[OF l1] k
    have ak: "length (arrays st_k) = k"
      and ck: "current_idx st_k = sum_list (map (int \<circ> shape1) (arrays st_k))"
      by (auto simp: day_init_def)
    from one_day_step_Some[OF s] obtain a where a: "arrays st_k1 = arrays st_k @ [a]"
      "find_bursts a bl (urls ! k) (burst_indices st_k) (current_idx st_k)
         = Inr (burst_indices st_k1, current_idx st_k1)" by blast
    from find_bursts_Inr[OF a(2)]
    have c1: "current_idx st_k1 = current_idx st_k + int (shape1 a)" by simp
    from one_day_loop_cursor[OF l2] obtain rest where rest: "arrays st = arrays st_k1 @ rest"
      by blast
    with a(1) have whole: "arrays st = arrays st_k @ a # rest" by simp
    have tk: "take k (arrays st) = arrays st_k" using whole ak by simp
    have nth: "arrays st ! k = a" using whole ak by (simp add: nth_append)
    have tk1: "take (Suc k) (arrays st) = arrays st_k @ [a]" using whole ak by simp
    have c1': "current_idx st_k1 = sum_list (map (int \<circ> shape1) (take (Suc k) (arrays st)))"
      using c1 ck tk1 by simp
    have st_k1_eq: "st_k1 = \<lparr>arrays = take (Suc k) (arrays st), burst_indices = burst_indices st_k1,
                      current_idx = sum_list (map (int \<circ> shape1) (take (Suc k) (arrays st)))\<rparr>"
      using a(1) tk1 c1' by simp
    from l1 tk ck a(2) nth c1' s st_k1_eq show ?thesis
      by (metis (no_types, lifting))
  qed
  have mono: "\<forall>j k. j \<le> k \<longrightarrow>
             sum_list (map (int \<circ> shape1) (take j (arrays st)))
               \<le> sum_list (map (int \<circ> shape1) (take k (arrays st)))"
    using sum_list_take_mono by blast
  have total: "\<forall>big. np_concatenate_axis1 (arrays st) = Inr big \<longrightarrow> int (shape1 big) = current_idx st"
    using np_concatenate_axis1_shape1 tot by (auto simp: sum_list_int_shape1)
  from len tot pre mono total show ?thesis by blast
qed

theorem cursor_is_prefix_sum_witness:
  "one_day_loop fetch_three (Some [''00:00-00:40'']) three_urls day_init
     = Inr \<lparr>arrays = [blank 900, blank 850, blank 900],
            burst_indices = [\<lparr>burst = ''00:00-00:40'', start_idx = 0 - 240, end_idx = 0 + 899 + 240\<rparr>,
                             \<lparr>burst = ''00:00-00:40'', start_idx = 900 - 240, end_idx = 900 + 849 + 240\<rparr>,
                             \<lparr>burst = ''00:00-00:40'', start_idx = 1750 - 240, end_idx = 1750 + 899 + 240\<rparr>],
            current_idx = 2650\<rparr>
   \<and> map (\<lambda>k. map_sum id current_idx
               (one_day_loop fetch_three (Some [''00:00-00:40'']) (take k three_urls) day_init))
         [0, 1, 2, 3]
       = [Inr 0, Inr 900, Inr 1750, Inr 2650]
   \<and> map_sum id (\<lambda>r. shape1 (fst r)) (assemble fetch_three (Some [''00:00-00:40'']) three_urls)
       = Inr 2650"
proof -
  have l: "one_day_loop fetch_three (Some [''00:00-00:40'']) three_urls day_init
     = Inr \<lparr>arrays = [blank 900, blank 850, blank 900],
            burst_indices = [\<lparr>burst = ''00:00-00:40'', start_idx = 0 - 240, end_idx = 0 + 899 + 240\<rparr>,
                             \<lparr>burst = ''00:00-00:40'', start_idx = 900 - 240, end_idx = 900 + 849 + 240\<rparr>,
                             \<lparr>burst = ''00:00-00:40'', start_idx = 1750 - 240, end_idx = 1750 + 899 + 240\<rparr>],
            current_idx = 2650\<rparr>"
    by (simp add: three_urls_def one_day_step_def download_fits_from_gz_def fetch_three_def
        day_init_def find_bursts_three)
  have c: "map (\<lambda>k. map_sum id current_idx
               (one_day_loop fetch_three (Some [''00:00-00:40'']) (take k three_urls) day_init))
         [0, 1, 2, 3]
       = [Inr 0, Inr 900, Inr 1750, Inr 2650]"
    by (simp add: three_urls_def one_day_step_def download_fits_from_gz_def fetch_three_def
        day_init_def find_bursts_three)
  have t: "map_sum id (\<lambda>r. shape1 (fst r)) (assemble fetch_three (Some [''00:00-00:40'']) three_urls)
       = Inr 2650"
    by (simp add: assemble_def l np_concatenate_axis1_def np_flipud_def shape_blank)
  from cursor_is_prefix_sum[OF l] show ?thesis using l c t by blast
qed

text \<open>
  C4, as the specification words it, fails: without a burst list the same three arrays
  are decoded and appended, and the cursor is 0 after each of them.
\<close>

theorem cursor_without_bursts_counterexample:
  "one_day_loop fetch_three None three_urls day_init
     = Inr \<lparr>arrays = [blank 900, blank 850, blank 900], burst_indices = [],
            current_idx = 0\<rparr>"
  by (simp add: three_urls_def one_day_step_def download_fits_from_gz_def fetch_three_def
      day_init_def)

section \<open>The assembled spectrogram\<close>

lemma assemble_Inr:
  assumes "assemble fetch bl urls = Inr (big, idxs)"
  shows "\<exists>st cat. one_day_loop fetch bl urls day_init = Inr st \<and> arrays st \<noteq> []
           \<and> np_concatenate_axis1 (arrays st) = Inr cat \<and> big = np_flipud cat
           \<and> idxs = burst_indices st"
  using assms by (auto simp: assemble_def split: sum.splits if_splits)

lemma np_concatenate_axis1_Inr:
  assumes "np_concatenate_axis1 arrs = Inr cat"
  shows "arrs \<noteq> [] \<and> (\<forall>a\<in>set arrs. shape0 a = shape0 cat)
       \<and> shape1 cat = sum_list (map shape1 arrs)
       \<and> rows cat = map (\<lambda>i. concat (map (\<lambda>a. rows a ! i) arrs)) [0..<shape0 cat]"
  using assms
  by (auto simp: np_concatenate_axis1_def list_all_iff split: list.splits if_splits)

text \<open>With no burst list the loop cannot fail once every file decodes.\<close>

lemma one_day_loop_None:
  assumes "map fetch urls = map Inr arrs"
  shows "one_day_loop fetch None urls st = Inr (st\<lparr>arrays := arrays st @ arrs\<rparr>)"
  using assms
proof (induction urls arbitrary: st arrs)
  case Nil
  then show ?case by simp
next
  case (Cons u urls)
  then obtain a as where a: "arrs = a # as" "fetch u = Inr a" "map fetch urls = map Inr as"
    by (cases arrs) auto
  from Cons.IH[OF a(3)] a show ?case
    by (simp add: one_day_step_def download_fits_from_gz_def)
qed

lemma assemble_returns:
  assumes "map fetch urls = map Inr (a # as)" and "\<forall>b\<in>set as. shape0 b = shape0 a"
  shows "\<exists>cat. np_concatenate_axis1 (a # as) = Inr cat
           \<and> assemble fetch None urls = Inr (np_flipud cat, [])"
  using assms
  by (simp add: assemble_def one_day_loop_None[OF assms(1)] day_init_def
      np_concatenate_axis1_def list_all_iff)

text \<open>
  C9. When the assembly returns a spectrogram, every file of the list was decoded, the
  arrays are not empty, and the spectrogram is the concatenation of the decoded arrays
  along the time axis, in the order of the list, with the frequency axis reversed: row
  \<open>i\<close> of the concatenation is the rows \<open>i\<close> of the arrays one after the other, and row
  \<open>i\<close> of the result is row \<open>n - 1 - i\<close> of the concatenation, so row 0 is its last row.
\<close>

theorem assemble_spectrogram:
  assumes "assemble fetch burst_list urls = Inr (big, idxs)"
  shows "\<exists>arrs cat. map fetch urls = map Inr arrs \<and> arrs \<noteq> []
           \<and> np_concatenate_axis1 arrs = Inr cat \<and> big = np_flipud cat
           \<and> (\<forall>a\<in>set arrs. shape0 a = shape0 big)
           \<and> shape1 big = sum_list (map shape1 arrs)
           \<and> length (rows big) = shape0 big
           \<and> (\<forall>i<shape0 big. rows cat ! i = concat (map (\<lambda>a. rows a ! i) arrs)
                             \<and> rows big ! i = rows cat ! (shape0 big - 1 - i))"
proof -
  from assemble_Inr[OF assms] obtain st cat where
    l: "one_day_loop fetch burst_list urls day_init = Inr st" and ne: "arrays st \<noteq> []"
    and cat: "np_concatenate_axis1 (arrays st) = Inr cat" and big: "big = np_flipud cat"
    by blast
  from one_day_loop_arrays[OF l] have f: "map fetch urls = map Inr (arrays st)"
    by (auto simp: day_init_def)
  from np_concatenate_axis1_Inr[OF cat] have
    s0: "\<forall>a\<in>set (arrays st). shape0 a = shape0 cat"
    and s1: "shape1 cat = sum_list (map shape1 (arrays st))"
    and r: "rows cat = map (\<lambda>i. concat (map (\<lambda>a. rows a ! i) (arrays st))) [0..<shape0 cat]"
    by blast+
  have b0: "shape0 big = shape0 cat" and b1: "shape1 big = shape1 cat"
    and br: "rows big = rev (rows cat)"
    using big by (simp_all add: np_flipud_def)
  have len: "length (rows cat) = shape0 cat" using r by simp
  have rows: "\<forall>i<shape0 big. rows cat ! i = concat (map (\<lambda>a. rows a ! i) (arrays st))
                             \<and> rows big ! i = rows cat ! (shape0 big - 1 - i)"
  proof (intro allI impI)
    fix i assume i: "i < shape0 big"
    then have "rows cat ! i = concat (map (\<lambda>a. rows a ! i) (arrays st))"
      using r b0 by simp
    moreover have "rows big ! i = rows cat ! (shape0 big - 1 - i)"
      using i br len b0 by (simp add: rev_nth)
    ultimately show "rows cat ! i = concat (map (\<lambda>a. rows a ! i) (arrays st))
                             \<and> rows big ! i = rows cat ! (shape0 big - 1 - i)" by blast
  qed
  from f ne cat big s0 s1 b0 b1 br len rows show ?thesis
    by (intro exI[of _ "arrays st"] exI[of _ cat]) simp
qed

theorem assemble_spectrogram_witness:
  "assemble fetch_small None [''S_20250101_000000_59.fit.gz'', ''S_20250101_001500_59.fit.gz'']
     = Inr (\<lparr>shape0 = 2, shape1 = 3, rows = [[3, 4, 6], [1, 2, 5]]\<rparr>, [])
   \<and> np_concatenate_axis1 [\<lparr>shape0 = 2, shape1 = 2, rows = [[1, 2], [3, 4::int]]\<rparr>,
                            \<lparr>shape0 = 2, shape1 = 1, rows = [[5], [6]]\<rparr>]
       = Inr \<lparr>shape0 = 2, shape1 = 3, rows = [[1, 2, 5], [3, 4, 6]]\<rparr>"
proof -
  have a: "assemble fetch_small None [''S_20250101_000000_59.fit.gz'', ''S_20250101_001500_59.fit.gz'']
     = Inr (\<lparr>shape0 = 2, shape1 = 3, rows = [[3, 4, 6], [1, 2, 5]]\<rparr>, [])"
    by code_simp
  have c: "np_concatenate_axis1 [\<lparr>shape0 = 2, shape1 = 2, rows = [[1, 2], [3, 4::int]]\<rparr>,
                            \<lparr>shape0 = 2, shape1 = 1, rows = [[5], [6]]\<rparr>]
       = Inr \<lparr>shape0 = 2, shape1 = 3, rows = [[1, 2, 5], [3, 4, 6]]\<rparr>"
    by code_simp
  from assemble_spectrogram[OF a] show ?thesis using a c by blast
qed

text \<open>
  C1. The second of three files cannot be fetched: \<open>download_fits_from_gz\<close> raises,
  nothing in the loop catches it, and \<open>one_day\<close> ends with that error instead of
  skipping the file and assembling the other two.
\<close>

theorem decode_failure_aborts_run:
  "fetch_second_refused ''S_20250101_001500_59.fit.gz'' = Inl HTTPError
   \<and> download_fits_from_gz fetch_second_refused ''S_20250101_001500_59.fit.gz'' = Inl HTTPError
   \<and> circular_sort three_urls ''000000'' ''u'' = Inr three_urls
   \<and> one_day fetch_second_refused (Inr three_urls) ''u'' ''S_'' ''000000'' None = Inl HTTPError"
proof -
  have a: "fetch_second_refused ''S_20250101_001500_59.fit.gz'' = Inl HTTPError"
    by (simp add: fetch_second_refused_def)
  have b: "download_fits_from_gz fetch_second_refused ''S_20250101_001500_59.fit.gz'' = Inl HTTPError"
    by (simp add: download_fits_from_gz_def a)
  have c: "circular_sort three_urls ''000000'' ''u'' = Inr three_urls" by code_simp
  have f: "filter (sublist ''S_'') three_urls = three_urls" by code_simp
  have n: "length three_urls \<noteq> 0" by (simp add: three_urls_def)
  have l: "one_day_loop fetch_second_refused None three_urls day_init = Inl HTTPError"
    by (simp add: three_urls_def one_day_step_def download_fits_from_gz_def
        fetch_second_refused_def fetch_three_def day_init_def)
  have d: "one_day fetch_second_refused (Inr three_urls) ''u'' ''S_'' ''000000'' None = Inl HTTPError"
    using n by (simp add: one_day_def f c assemble_def l)
  from a b c d show ?thesis by blast
qed

section \<open>Properties of \<open>extract_bursts\<close>\<close>

text \<open>
  While no kept row has more than four fields, the loop returns the time ranges of the
  selected rows in table order; a row with a fifth field that is not skipped raises.
\<close>

lemma burst_of_row_four:
  assumes "row_skipped line \<or> length (py_split CHR 0x09 line) \<le> 4"
  shows "burst_of_row date station line
           = Inr (if row_selected date station line then [py_split CHR 0x09 line ! 1] else [])"
proof (cases "row_skipped line")
  case True
  then show ?thesis
    by (auto simp: burst_of_row_def row_selected_def row_skipped_def)
next
  case False
  with assms have le: "length (py_split CHR 0x09 line) \<le> 4" by simp
  show ?thesis
  proof (cases "length (py_split CHR 0x09 line) < 4")
    case True
    with False show ?thesis
      by (auto simp: burst_of_row_def row_selected_def row_skipped_def Let_def)
  next
    case False
    with le have "length (py_split CHR 0x09 line) = 4" by simp
    then obtain a b c d where p: "py_split CHR 0x09 line = [a, b, c, d]"
      by (auto simp: length_Suc_conv eval_nat_numeral)
    with \<open>\<not> row_skipped line\<close> show ?thesis
      by (auto simp: burst_of_row_def row_selected_def row_skipped_def Let_def)
  qed
qed

lemma extract_bursts_loop_four:
  assumes "\<forall>line\<in>set lines. row_skipped line \<or> length (py_split CHR 0x09 line) \<le> 4"
  shows "extract_bursts_loop date station lines bursts
           = Inr (bursts @ map (\<lambda>l. py_split CHR 0x09 l ! 1)
                               (filter (row_selected date station) lines))"
  using assms
proof (induction lines arbitrary: bursts)
  case Nil
  then show ?case by simp
next
  case (Cons l ls)
  then have "burst_of_row date station l
           = Inr (if row_selected date station l then [py_split CHR 0x09 l ! 1] else [])"
    by (simp add: burst_of_row_four)
  with Cons show ?case by simp
qed

lemma burst_of_row_five:
  assumes "\<not> row_skipped line" and "4 < length (py_split CHR 0x09 line)"
  shows "burst_of_row date station line = Inl ValueError"
proof -
  from assms(2) obtain a b c d e r where "py_split CHR 0x09 line = a # b # c # d # e # r"
    by (auto simp: length_Suc_conv eval_nat_numeral Suc_le_length_iff less_eq_Suc_le)
  with assms show ?thesis
    by (auto simp: burst_of_row_def row_skipped_def Let_def)
qed

text \<open>
  C8. The table with a four-field row for the station and the day gives its time range;
  the same row with a fifth field makes \<open>extract_bursts\<close> raise \<open>ValueError\<close>.
\<close>

theorem extract_bursts_five_fields_raises:
  "extract_bursts (Inr table_four) ''GERMANY-DLR'' 2025 1 31 = Inr [''03:00-03:01'']
   \<and> extract_bursts (Inr table_five) ''GERMANY-DLR'' 2025 1 31 = Inl ValueError"
  by code_simp

end
